theory Spec2Isabelle
  imports Main "HOL-Library.Sublist" "HOL-Library.Multiset"
begin

section \<open>Data model\<close>

text \<open>
  The records of \<^verbatim>\<open>app.js\<close> are plain JavaScript objects: \<^verbatim>\<open>createNote\<close> and
  \<^verbatim>\<open>createTool\<close> build them with a fixed set of fields, \<^verbatim>\<open>handleImportFile\<close> takes them
  from a parsed JSON document, where any field may be absent or hold any JSON value.
  A field value is a JSON value; numbers are restricted to integers and nested objects are
  left out (no field of the data model holds one). An object is a finite map from field
  names to values; a field that is absent reads as \<^verbatim>\<open>undefined\<close>, here \<open>None\<close>.
\<close>

datatype jsval = JNull | JBool bool | JNum int | JStr string | JArr "jsval list"

type_synonym obj = "string \<rightharpoonup> jsval"

text \<open>
  Records are shared by reference: \<^verbatim>\<open>state.notes\<close>, \<^verbatim>\<open>state.currentNote\<close> and the
  argument of \<^verbatim>\<open>saveNote\<close> may all denote the same object. So records live in a heap and
  the mirrors are lists of references. \<open>next_ref\<close> is the first reference not yet allocated.
  The mirrors \<^verbatim>\<open>state.notes\<close> and \<^verbatim>\<open>state.tools\<close> are the fields \<open>state_notes\<close> and
  \<open>state_tools\<close>.
\<close>

type_synonym ref = nat

datatype error = TypeError | DataError | RequestError

datatype store_name = NotesStore | ToolsStore

text \<open>
  The application state: the global \<^verbatim>\<open>state\<close> of \<^verbatim>\<open>app.js\<close> (lines 8-21; the settings and
  the autosave timer are left out), the object heap, and the two object stores of the
  IndexedDB database (both with key path \<^verbatim>\<open>id\<close>, lines 38 and 44). A store request may
  fail for reasons outside the program; \<open>faults\<close> lists, for the store requests to come,
  whether each one fails (\<open>True\<close>), and a request with no entry left succeeds. An
  operation of the source runs from its call to the end of its promise, with no other
  operation in between (section 5 of the specification). \<^verbatim>\<open>loadNotes\<close> and \<^verbatim>\<open>loadTools\<close>,
  which replace a mirror by the contents of its store, are not modelled.

  Every record is made by an object literal or by \<^verbatim>\<open>JSON.parse\<close> and so inherits from
  \<^verbatim>\<open>Object.prototype\<close>, until an assignment to its \<^verbatim>\<open>__proto__\<close> takes the prototype away
  (see \<open>object_assign\<close> below); \<open>bare\<close> is the set of the records without a prototype.
\<close>

record app_state =
  heap :: "ref \<Rightarrow> obj"
  next_ref :: ref
  state_notes :: "ref list"
  state_tools :: "ref list"
  currentNote :: "ref option"
  activeTagFilter :: "string option"
  isDirty :: bool
  db :: "store_name \<Rightarrow> jsval \<rightharpoonup> obj"
  faults :: "bool list"
  bare :: "ref set"

text \<open>
  What the browser provides and the source only calls: \<^verbatim>\<open>String.prototype.toLowerCase\<close>,
  \<^verbatim>\<open>String.prototype.localeCompare\<close> (which converts its argument to a string itself) and
  the time value of \<^verbatim>\<open>new Date(v)\<close> (\<open>None\<close> for an invalid date, whose time value is NaN).
\<close>

record platform =
  toLowerCase :: "string \<Rightarrow> string"
  localeCompare :: "string \<Rightarrow> jsval option \<Rightarrow> int"
  dateValue :: "jsval option \<Rightarrow> int option"

text \<open>
  What the page holds when a list is rendered: the values of the search boxes
  \<^verbatim>\<open>notes-search\<close> and \<^verbatim>\<open>tools-search\<close> and of the sort selectors \<^verbatim>\<open>notes-sort\<close> and
  \<^verbatim>\<open>tools-sort\<close>. The elements of the page the source looks up by id all exist.
\<close>

record page =
  notes_search :: string
  notes_sort :: string
  tools_search :: string
  tools_sort :: string

section \<open>JavaScript primitives used by the source\<close>

text \<open>Truthiness of a field value, as \<^verbatim>\<open>if (v)\<close> and \<^verbatim>\<open>!v\<close> see it.\<close>

fun truthy :: "jsval option \<Rightarrow> bool" where
  "truthy None = False"
| "truthy (Some JNull) = False"
| "truthy (Some (JBool b)) = b"
| "truthy (Some (JNum n)) = (n \<noteq> 0)"
| "truthy (Some (JStr s)) = (s \<noteq> [])"
| "truthy (Some (JArr vs)) = True"

fun is_primitive :: "jsval option \<Rightarrow> bool" where
  "is_primitive (Some (JArr vs)) = False"
| "is_primitive v = True"

text \<open>
  \<^verbatim>\<open>a === b\<close> for field values read from two different objects. Primitive values are
  compared by value. An array is an object and is only equal to itself; no two records of
  the program share an array (each comes from its own literal or its own \<^verbatim>\<open>JSON.parse\<close>
  node), so two arrays read from different records are never equal.
\<close>

definition strict_eq :: "jsval option \<Rightarrow> jsval option \<Rightarrow> bool" where
  "strict_eq a b = (is_primitive a \<and> a = b)"

text \<open>\<^verbatim>\<open>n.id === note.id\<close> for two records of the heap, which may be the same object.\<close>

definition same_id :: "(ref \<Rightarrow> obj) \<Rightarrow> ref \<Rightarrow> ref \<Rightarrow> bool" where
  "same_id h n note = (n = note \<or> strict_eq (h n ''id'') (h note ''id''))"

text \<open>\<^verbatim>\<open>Array.prototype.findIndex\<close>; \<open>None\<close> stands for the result \<^verbatim>\<open>-1\<close>.\<close>

fun findIndex :: "('a \<Rightarrow> bool) \<Rightarrow> 'a list \<Rightarrow> nat option" where
  "findIndex p [] = None"
| "findIndex p (x # xs) =
     (if p x then Some 0 else map_option Suc (findIndex p xs))"

text \<open>
  \<^verbatim>\<open>Object.assign(target, source)\<close> assigns every own field of the source to the target
  (\<^verbatim>\<open>target[key] = source[key]\<close>). For every key but one this sets or makes the field of
  the target. The key \<^verbatim>\<open>__proto__\<close>, which \<^verbatim>\<open>JSON.parse\<close> makes an own field like any other,
  is different: when the target has no field of that name and inherits from
  \<^verbatim>\<open>Object.prototype\<close>, the assignment calls the setter found there, which makes no field;
  it replaces the prototype of the target when the value is an object or \<^verbatim>\<open>null\<close>, and
  with \<^verbatim>\<open>null\<close> the target has no prototype afterwards. \<open>bare_target\<close> tells whether the
  target is without a prototype before the call, \<open>loses_prototype\<close> whether the call takes
  it away. A prototype that is an array has none of the fields the source reads from a
  record, so only its absence is kept track of.
\<close>

definition object_assign :: "bool \<Rightarrow> obj \<Rightarrow> obj \<Rightarrow> obj" where
  "object_assign bare_target target source =
     (\<lambda>f. if f = ''__proto__'' \<and> \<not> bare_target \<and> target f = None then None
          else case source f of None \<Rightarrow> target f | Some v \<Rightarrow> Some v)"

definition loses_prototype :: "bool \<Rightarrow> obj \<Rightarrow> obj \<Rightarrow> bool" where
  "loses_prototype bare_target target source =
     (\<not> bare_target \<and> target ''__proto__'' = None \<and> source ''__proto__'' = Some JNull)"

section \<open>IndexedDB requests (lines 94-116)\<close>

text \<open>
  A key of an object store is a number, a string or an array of keys. \<^verbatim>\<open>store.put\<close>
  throws a \<^verbatim>\<open>DataError\<close> when the key path \<^verbatim>\<open>id\<close> yields no valid key, which rejects the
  promise of \<^verbatim>\<open>putInStore\<close> before any request is made.
\<close>

fun valid_key :: "jsval \<Rightarrow> bool" where
  "valid_key (JNum n) = True"
| "valid_key (JStr s) = True"
| "valid_key (JArr vs) = list_all valid_key vs"
| "valid_key JNull = False"
| "valid_key (JBool b) = False"

text \<open>The outcome of the next store request: does it fail, and the rest of the schedule.\<close>

definition next_request :: "app_state \<Rightarrow> bool \<times> app_state" where
  "next_request s =
     (case faults s of [] \<Rightarrow> (False, s) | f # fs \<Rightarrow> (f, s\<lparr>faults := fs\<rparr>))"

definition putInStore ::
    "store_name \<Rightarrow> obj \<Rightarrow> app_state \<Rightarrow> (error + unit) \<times> app_state" where
  "putInStore storeName item s =
     (case item ''id'' of
        None \<Rightarrow> (Inl DataError, s)
      | Some k \<Rightarrow>
          if \<not> valid_key k then (Inl DataError, s)
          else (case next_request s of
                  (True, s') \<Rightarrow> (Inl RequestError, s')
                | (False, s') \<Rightarrow>
                    (Inr (), s'\<lparr>db := (db s')(storeName := (db s' storeName)(k \<mapsto> item))\<rparr>)))"

definition deleteFromStore ::
    "store_name \<Rightarrow> string \<Rightarrow> app_state \<Rightarrow> (error + unit) \<times> app_state" where
  "deleteFromStore storeName ident s =
     (case next_request s of
        (True, s') \<Rightarrow> (Inl RequestError, s')
      | (False, s') \<Rightarrow>
          (Inr (), s'\<lparr>db := (db s')(storeName := (db s' storeName)(JStr ident := None))\<rparr>))"

section \<open>The query pipeline (lines 171-215, 434-479)\<close>

subsection \<open>Callbacks that may throw\<close>

text \<open>
  A property read or a method call on a value of the wrong kind throws a \<^verbatim>\<open>TypeError\<close>,
  which ends the whole pipeline. \<^verbatim>\<open>filter\<close> and \<^verbatim>\<open>some\<close> visit the elements from left to
  right, \<^verbatim>\<open>some\<close> stops at the first hit, and \<^verbatim>\<open>||\<close> does not evaluate its right operand
  when the left one is true.
\<close>

definition bindE :: "error + 'a \<Rightarrow> ('a \<Rightarrow> error + 'b) \<Rightarrow> error + 'b" where
  "bindE m f = (case m of Inl e \<Rightarrow> Inl e | Inr x \<Rightarrow> f x)"

fun filterE :: "('a \<Rightarrow> error + bool) \<Rightarrow> 'a list \<Rightarrow> error + 'a list" where
  "filterE p [] = Inr []"
| "filterE p (x # xs) =
     bindE (p x) (\<lambda>b. bindE (filterE p xs) (\<lambda>ys. Inr (if b then x # ys else ys)))"

fun someE :: "('a \<Rightarrow> error + bool) \<Rightarrow> 'a list \<Rightarrow> error + bool" where
  "someE p [] = Inr False"
| "someE p (x # xs) = bindE (p x) (\<lambda>b. if b then Inr True else someE p xs)"

definition orE :: "error + bool \<Rightarrow> error + bool \<Rightarrow> error + bool" where
  "orE a b = bindE a (\<lambda>x. if x then Inr True else b)"

text \<open>\<^verbatim>\<open>s.includes(q)\<close> on strings: \<open>q\<close> occurs in \<open>s\<close> as a contiguous piece.\<close>

fun str_includes :: "string \<Rightarrow> string \<Rightarrow> bool" where
  "str_includes [] q = (q = [])"
| "str_includes (c # cs) q = (prefix q (c # cs) \<or> str_includes cs q)"

text \<open>\<^verbatim>\<open>v.toLowerCase().includes(q)\<close>: only a string has \<^verbatim>\<open>toLowerCase\<close>.\<close>

fun lower_includes :: "platform \<Rightarrow> jsval option \<Rightarrow> string \<Rightarrow> error + bool" where
  "lower_includes env (Some (JStr s)) q = Inr (str_includes (toLowerCase env s) q)"
| "lower_includes env v q = Inl TypeError"

text \<open>
  \<^verbatim>\<open>v.includes(t)\<close> as in \<^verbatim>\<open>note.tags.includes(state.activeTagFilter)\<close>: on an array it
  looks for an element equal to the string \<open>t\<close>, on a string it is the substring test, and
  nothing else has the method.
\<close>

fun tags_includes :: "jsval option \<Rightarrow> string \<Rightarrow> error + bool" where
  "tags_includes (Some (JArr vs)) t = Inr (JStr t \<in> set vs)"
| "tags_includes (Some (JStr s)) t = Inr (str_includes s t)"
| "tags_includes v t = Inl TypeError"

text \<open>\<^verbatim>\<open>v.some(tag => tag.toLowerCase().includes(q))\<close>: only an array has \<^verbatim>\<open>some\<close>.\<close>

fun tags_some :: "platform \<Rightarrow> jsval option \<Rightarrow> string \<Rightarrow> error + bool" where
  "tags_some env (Some (JArr vs)) q = someE (\<lambda>tag. lower_includes env (Some tag) q) vs"
| "tags_some env v q = Inl TypeError"

text \<open>The callbacks of the search filters (lines 182-186 and 445-450).\<close>

definition note_matches :: "platform \<Rightarrow> string \<Rightarrow> obj \<Rightarrow> error + bool" where
  "note_matches env searchQuery note =
     orE (lower_includes env (note ''title'') searchQuery)
    (orE (lower_includes env (note ''content'') searchQuery)
         (tags_some env (note ''tags'') searchQuery))"

definition tool_matches :: "platform \<Rightarrow> string \<Rightarrow> obj \<Rightarrow> error + bool" where
  "tool_matches env searchQuery tool =
     orE (lower_includes env (tool ''name'') searchQuery)
    (orE (lower_includes env (tool ''description'') searchQuery)
    (orE (lower_includes env (tool ''url'') searchQuery)
         (tags_some env (tool ''tags'') searchQuery)))"

subsection \<open>Comparators and sorting\<close>

text \<open>
  \<^verbatim>\<open>new Date(x) - new Date(y)\<close> never throws; with an invalid date it is NaN, which
  \<^verbatim>\<open>sort\<close> takes for \<open>0\<close>. \<^verbatim>\<open>x.localeCompare(y)\<close> needs \<open>x\<close> to be a string.
\<close>

definition date_diff :: "platform \<Rightarrow> jsval option \<Rightarrow> jsval option \<Rightarrow> int" where
  "date_diff env x y =
     (case (dateValue env x, dateValue env y) of (Some a, Some b) \<Rightarrow> a - b | _ \<Rightarrow> 0)"

fun text_compare :: "platform \<Rightarrow> jsval option \<Rightarrow> jsval option \<Rightarrow> error + int" where
  "text_compare env (Some (JStr s)) y = Inr (localeCompare env s y)"
| "text_compare env x y = Inl TypeError"

definition notes_compare :: "platform \<Rightarrow> string \<Rightarrow> obj \<Rightarrow> obj \<Rightarrow> error + int" where
  "notes_compare env sortBy a b =
     (if sortBy = ''updated-desc'' then Inr (date_diff env (b ''updatedAt'') (a ''updatedAt''))
      else if sortBy = ''updated-asc'' then Inr (date_diff env (a ''updatedAt'') (b ''updatedAt''))
      else if sortBy = ''created-desc'' then Inr (date_diff env (b ''createdAt'') (a ''createdAt''))
      else if sortBy = ''created-asc'' then Inr (date_diff env (a ''createdAt'') (b ''createdAt''))
      else if sortBy = ''title-asc'' then text_compare env (a ''title'') (b ''title'')
      else if sortBy = ''title-desc'' then text_compare env (b ''title'') (a ''title'')
      else Inr 0)"

definition tools_compare :: "platform \<Rightarrow> string \<Rightarrow> obj \<Rightarrow> obj \<Rightarrow> error + int" where
  "tools_compare env sortBy a b =
     (if sortBy = ''updated-desc'' then Inr (date_diff env (b ''updatedAt'') (a ''updatedAt''))
      else if sortBy = ''updated-asc'' then Inr (date_diff env (a ''updatedAt'') (b ''updatedAt''))
      else if sortBy = ''created-desc'' then Inr (date_diff env (b ''createdAt'') (a ''createdAt''))
      else if sortBy = ''created-asc'' then Inr (date_diff env (a ''createdAt'') (b ''createdAt''))
      else if sortBy = ''name-asc'' then text_compare env (a ''name'') (b ''name'')
      else if sortBy = ''name-desc'' then text_compare env (b ''name'') (a ''name'')
      else Inr 0)"

text \<open>
  \<^verbatim>\<open>Array.prototype.sort\<close> with a comparator. ECMAScript fixes that the sort is stable and
  leaves to the engine which pairs are compared; the model is the stable insertion sort
  that inserts each element in front of the sorted rest of the array. An exception of the
  comparator ends the sort.
\<close>

fun insert_by :: "('a \<Rightarrow> 'a \<Rightarrow> error + int) \<Rightarrow> 'a \<Rightarrow> 'a list \<Rightarrow> error + 'a list" where
  "insert_by cmp x [] = Inr [x]"
| "insert_by cmp x (y # ys) =
     bindE (cmp x y) (\<lambda>c. if c \<le> 0 then Inr (x # y # ys)
                           else bindE (insert_by cmp x ys) (\<lambda>zs. Inr (y # zs)))"

fun sort_by :: "('a \<Rightarrow> 'a \<Rightarrow> error + int) \<Rightarrow> 'a list \<Rightarrow> error + 'a list" where
  "sort_by cmp [] = Inr []"
| "sort_by cmp (x # xs) = bindE (sort_by cmp xs) (insert_by cmp x)"

subsection \<open>Arrays of the pipeline\<close>

text \<open>
  \<^verbatim>\<open>sort\<close> works in place, on the array it is called on, while the spread \<^verbatim>\<open>[...a]\<close> and
  \<^verbatim>\<open>filter\<close> make new arrays. Whether the pipeline touches \<^verbatim>\<open>state.notes\<close> depends on which
  array \<^verbatim>\<open>filtered\<close> refers to, so the pipeline runs on a store of arrays: an array is
  referred to by its address, the index of its contents in the store. When the comparator
  throws, \<^verbatim>\<open>sort\<close> may leave its array in any order; the model leaves it as it was.
\<close>

type_synonym arrays = "ref list list"

type_synonym 'a array_prog = "arrays \<Rightarrow> (error + 'a) \<times> arrays"

definition returnA :: "'a \<Rightarrow> 'a array_prog" where
  "returnA x A = (Inr x, A)"

definition bindA :: "'a array_prog \<Rightarrow> ('a \<Rightarrow> 'b array_prog) \<Rightarrow> 'b array_prog" where
  "bindA m f A = (case m A of (Inl e, A') \<Rightarrow> (Inl e, A') | (Inr x, A') \<Rightarrow> f x A')"

definition array_new :: "ref list \<Rightarrow> nat array_prog" where
  "array_new xs A = (Inr (length A), A @ [xs])"

definition array_spread :: "nat \<Rightarrow> nat array_prog" where
  "array_spread a A = array_new (A ! a) A"

definition array_spread2 :: "nat \<Rightarrow> nat \<Rightarrow> nat array_prog" where
  "array_spread2 a b A = array_new (A ! a @ A ! b) A"

definition array_filter :: "(ref \<Rightarrow> error + bool) \<Rightarrow> nat \<Rightarrow> nat array_prog" where
  "array_filter p a A =
     (case filterE p (A ! a) of Inl e \<Rightarrow> (Inl e, A) | Inr ys \<Rightarrow> array_new ys A)"

definition array_sort :: "(ref \<Rightarrow> ref \<Rightarrow> error + int) \<Rightarrow> nat \<Rightarrow> unit array_prog" where
  "array_sort cmp a A =
     (case sort_by cmp (A ! a) of Inl e \<Rightarrow> (Inl e, A) | Inr ys \<Rightarrow> (Inr (), A[a := ys]))"

definition array_read :: "nat \<Rightarrow> (ref list) array_prog" where
  "array_read a A = (Inr (A ! a), A)"

text \<open>
  The body shared by \<^verbatim>\<open>filterAndSortNotes\<close> and \<^verbatim>\<open>filterAndSortTools\<close>, which differ in the
  mirror, the callbacks and the priority flag only. The mirror array is at the address
  \<open>src\<close>. A filter that is switched off is \<open>None\<close>.
\<close>

definition filterAndSort ::
    "nat \<Rightarrow> (ref \<Rightarrow> error + bool) option \<Rightarrow> (ref \<Rightarrow> error + bool) option \<Rightarrow>
     (ref \<Rightarrow> ref \<Rightarrow> error + int) \<Rightarrow> (ref \<Rightarrow> bool) \<Rightarrow> (ref list) array_prog" where
  "filterAndSort src tagFilter searchFilter compare priority =
     bindA (array_spread src) (\<lambda>filtered.
     bindA (case tagFilter of None \<Rightarrow> returnA filtered
            | Some p \<Rightarrow> array_filter p filtered) (\<lambda>filtered.
     bindA (case searchFilter of None \<Rightarrow> returnA filtered
            | Some p \<Rightarrow> array_filter p filtered) (\<lambda>filtered.
     bindA (array_sort compare filtered) (\<lambda>u.
     bindA (array_filter (\<lambda>n. Inr (priority n)) filtered) (\<lambda>pinned.
     bindA (array_filter (\<lambda>n. Inr (\<not> priority n)) filtered) (\<lambda>unpinned.
     bindA (array_spread2 pinned unpinned) array_read))))))"

text \<open>
  \<^verbatim>\<open>if (state.activeTagFilter)\<close>: the filter is applied when the field holds a string that
  is not empty.
\<close>

definition tag_callback :: "(ref \<Rightarrow> obj) \<Rightarrow> string option \<Rightarrow> (ref \<Rightarrow> error + bool) option" where
  "tag_callback h tagFilter =
     (case tagFilter of
        None \<Rightarrow> None
      | Some t \<Rightarrow> if t = [] then None else Some (\<lambda>n. tags_includes (h n ''tags'') t))"

text \<open>
  The two functions of the source. \<open>searchValue\<close> and \<open>sortBy\<close> are the values of the
  page's search box and sort selector. The array store of the call holds \<^verbatim>\<open>state.notes\<close>
  (or \<^verbatim>\<open>state.tools\<close>) at address \<open>0\<close>; the state after the call has the mirror as that
  address holds it then.
\<close>

definition filterAndSortNotes ::
    "platform \<Rightarrow> string \<Rightarrow> string \<Rightarrow> app_state \<Rightarrow> (error + ref list) \<times> app_state" where
  "filterAndSortNotes env searchValue sortBy s =
     (let searchQuery = toLowerCase env searchValue;
          (result, A) =
            filterAndSort 0
              (tag_callback (heap s) (activeTagFilter s))
              (if searchQuery = [] then None
               else Some (\<lambda>n. note_matches env searchQuery (heap s n)))
              (\<lambda>a b. notes_compare env sortBy (heap s a) (heap s b))
              (\<lambda>n. truthy (heap s n ''pinned''))
              [state_notes s]
      in (result, s\<lparr>state_notes := A ! 0\<rparr>))"

definition filterAndSortTools ::
    "platform \<Rightarrow> string \<Rightarrow> string \<Rightarrow> app_state \<Rightarrow> (error + ref list) \<times> app_state" where
  "filterAndSortTools env searchValue sortBy s =
     (let searchQuery = toLowerCase env searchValue;
          (result, A) =
            filterAndSort 0
              (tag_callback (heap s) (activeTagFilter s))
              (if searchQuery = [] then None
               else Some (\<lambda>t. tool_matches env searchQuery (heap s t)))
              (\<lambda>a b. tools_compare env sortBy (heap s a) (heap s b))
              (\<lambda>t. truthy (heap s t ''favorite''))
              [state_tools s]
      in (result, s\<lparr>state_tools := A ! 0\<rparr>))"

subsection \<open>The stages of the pipeline as list functions\<close>

text \<open>
  The value of \<^verbatim>\<open>filtered\<close> after the two filters and the sort, and the list the last
  three lines make of it. They are what the pipeline computes (lemma \<open>filterAndSort_result\<close>).
\<close>

definition filter_stage :: "(ref \<Rightarrow> error + bool) option \<Rightarrow> ref list \<Rightarrow> error + ref list" where
  "filter_stage p xs = (case p of None \<Rightarrow> Inr xs | Some q \<Rightarrow> filterE q xs)"

definition sort_stage ::
    "(ref \<Rightarrow> error + bool) option \<Rightarrow> (ref \<Rightarrow> error + bool) option \<Rightarrow>
     (ref \<Rightarrow> ref \<Rightarrow> error + int) \<Rightarrow> ref list \<Rightarrow> error + ref list" where
  "sort_stage tagFilter searchFilter compare xs =
     bindE (filter_stage tagFilter xs) (\<lambda>ys.
     bindE (filter_stage searchFilter ys) (sort_by compare))"

definition priority_first :: "(ref \<Rightarrow> bool) \<Rightarrow> ref list \<Rightarrow> ref list" where
  "priority_first priority xs = filter priority xs @ filter (\<lambda>n. \<not> priority n) xs"

section \<open>Rendering (lines 217-266, 481-547)\<close>

text \<open>
  \<^verbatim>\<open>renderNotesList\<close> and \<^verbatim>\<open>renderToolsGrid\<close> run the query pipeline and build the markup of
  every record of its result. They write to the page only, but they can throw, and every
  operation that changes a mirror calls one of them. The markup itself is not modelled,
  only whether building it throws: template literals and \<^verbatim>\<open>escapeHtml\<close> accept every
  value, \<^verbatim>\<open>note.content.substring(0, 60)\<close> needs a string, and
  \<^verbatim>\<open>note.tags.length > 0 ? note.tags.map(...) : ''\<close> throws when \<^verbatim>\<open>tags\<close> is \<^verbatim>\<open>undefined\<close> or
  \<^verbatim>\<open>null\<close> (no \<^verbatim>\<open>length\<close> can be read) and when it is a string that is not empty (its length
  is positive and it has no \<^verbatim>\<open>map\<close>); a number or a boolean has no \<^verbatim>\<open>length\<close>, and
  \<^verbatim>\<open>undefined > 0\<close> is false.
\<close>

fun mapE :: "('a \<Rightarrow> error + 'b) \<Rightarrow> 'a list \<Rightarrow> error + 'b list" where
  "mapE f [] = Inr []"
| "mapE f (x # xs) = bindE (f x) (\<lambda>y. bindE (mapE f xs) (\<lambda>ys. Inr (y # ys)))"

fun content_preview :: "jsval option \<Rightarrow> error + unit" where
  "content_preview (Some (JStr c)) = Inr ()"
| "content_preview v = Inl TypeError"

fun tags_markup :: "jsval option \<Rightarrow> error + unit" where
  "tags_markup None = Inl TypeError"
| "tags_markup (Some JNull) = Inl TypeError"
| "tags_markup (Some (JStr t)) = (if t = [] then Inr () else Inl TypeError)"
| "tags_markup (Some (JArr vs)) = Inr ()"
| "tags_markup (Some (JBool b)) = Inr ()"
| "tags_markup (Some (JNum n)) = Inr ()"

text \<open>The callbacks of the two \<^verbatim>\<open>map\<close> calls (lines 226-247 and 490-516).\<close>

definition note_item :: "obj \<Rightarrow> error + unit" where
  "note_item note = bindE (content_preview (note ''content'')) (\<lambda>u. tags_markup (note ''tags''))"

definition tool_card :: "obj \<Rightarrow> error + unit" where
  "tool_card tool = tags_markup (tool ''tags'')"

definition renderNotesList :: "platform \<Rightarrow> page \<Rightarrow> app_state \<Rightarrow> (error + unit) \<times> app_state" where
  "renderNotesList env ui s =
     (case filterAndSortNotes env (notes_search ui) (notes_sort ui) s of
        (Inl e, s1) \<Rightarrow> (Inl e, s1)
      | (Inr filteredNotes, s1) \<Rightarrow>
          if filteredNotes = [] then (Inr (), s1)
          else (case mapE (\<lambda>n. note_item (heap s1 n)) filteredNotes of
                  Inl e \<Rightarrow> (Inl e, s1)
                | Inr items \<Rightarrow> (Inr (), s1)))"

definition renderToolsGrid :: "platform \<Rightarrow> page \<Rightarrow> app_state \<Rightarrow> (error + unit) \<times> app_state" where
  "renderToolsGrid env ui s =
     (case filterAndSortTools env (tools_search ui) (tools_sort ui) s of
        (Inl e, s1) \<Rightarrow> (Inl e, s1)
      | (Inr filteredTools, s1) \<Rightarrow>
          if filteredTools = [] then (Inr (), s1)
          else (case mapE (\<lambda>t. tool_card (heap s1 t)) filteredTools of
                  Inl e \<Rightarrow> (Inl e, s1)
                | Inr cards \<Rightarrow> (Inr (), s1)))"

section \<open>Notes and tools (lines 122-169, 386-432)\<close>



text \<open>
  \<^verbatim>\<open>saveNote\<close> and \<^verbatim>\<open>saveTool\<close>. The assignment to \<^verbatim>\<open>updatedAt\<close> (\<open>set_updatedAt\<close>) writes to
  the object the argument refers to; \<^verbatim>\<open>await putInStore\<close> rejects the whole call when the
  request fails, so the lines after it do not run. After the record list is updated the
  list is rendered, and an exception there rejects the call too, with the store and the
  list already written and, in \<^verbatim>\<open>saveNote\<close>, before \<^verbatim>\<open>state.isDirty\<close> is cleared.
  \<^verbatim>\<open>updateSaveStatus\<close> writes to the page only.
\<close>

definition set_updatedAt :: "string \<Rightarrow> ref \<Rightarrow> app_state \<Rightarrow> app_state" where
  "set_updatedAt now r s = s\<lparr>heap := (heap s)(r := (heap s r)(''updatedAt'' \<mapsto> JStr now))\<rparr>"

definition upsert_ref :: "(ref \<Rightarrow> obj) \<Rightarrow> ref \<Rightarrow> ref list \<Rightarrow> ref list" where
  "upsert_ref h r rs =
     (case findIndex (\<lambda>n. same_id h n r) rs of
        Some i \<Rightarrow> rs[i := r]
      | None \<Rightarrow> rs @ [r])"


definition saveTool ::
    "platform \<Rightarrow> page \<Rightarrow> string \<Rightarrow> ref \<Rightarrow> app_state \<Rightarrow> (error + unit) \<times> app_state" where
  "saveTool env ui now tool s =
     (let s1 = set_updatedAt now tool s
      in case putInStore ToolsStore (heap s1 tool) s1 of
           (Inl e, s2) \<Rightarrow> (Inl e, s2)
         | (Inr u, s2) \<Rightarrow>
             renderToolsGrid env ui
               (s2\<lparr>state_tools := upsert_ref (heap s2) tool (state_tools s2)\<rparr>))"

text \<open>
  \<^verbatim>\<open>deleteNote\<close> and \<^verbatim>\<open>deleteTool\<close>. The answer to \<^verbatim>\<open>confirm(...)\<close> is an input. The
  callers pass a string (\<^verbatim>\<open>state.currentNote.id\<close> of a note selected through its
  \<^verbatim>\<open>data-note-id\<close>, \<^verbatim>\<open>btn.dataset.toolId\<close>), and \<^verbatim>\<open>n.id !== id\<close> holds unless the record's
  id is that very string. Both end by rendering the list, whose exception rejects the
  call after the store and the mirror were written; \<^verbatim>\<open>showEditorPlaceholder\<close> writes to
  the page only.
\<close>

definition has_id :: "(ref \<Rightarrow> obj) \<Rightarrow> string \<Rightarrow> ref \<Rightarrow> bool" where
  "has_id h ident n = (h n ''id'' = Some (JStr ident))"

definition deleteNote ::
    "platform \<Rightarrow> page \<Rightarrow> bool \<Rightarrow> string \<Rightarrow> app_state \<Rightarrow> (error + unit) \<times> app_state" where
  "deleteNote env ui confirmed ident s =
     (if \<not> confirmed then (Inr (), s)
      else case deleteFromStore NotesStore ident s of
             (Inl e, s1) \<Rightarrow> (Inl e, s1)
           | (Inr u, s1) \<Rightarrow>
               (let s2 = s1\<lparr>state_notes := filter (\<lambda>n. \<not> has_id (heap s1) ident n) (state_notes s1)\<rparr>;
                    s3 = (case currentNote s2 of
                            None \<Rightarrow> s2
                          | Some c \<Rightarrow> if has_id (heap s2) ident c then s2\<lparr>currentNote := None\<rparr> else s2)
                in renderNotesList env ui s3))"

definition deleteTool ::
    "platform \<Rightarrow> page \<Rightarrow> bool \<Rightarrow> string \<Rightarrow> app_state \<Rightarrow> (error + unit) \<times> app_state" where
  "deleteTool env ui confirmed ident s =
     (if \<not> confirmed then (Inr (), s)
      else case deleteFromStore ToolsStore ident s of
             (Inl e, s1) \<Rightarrow> (Inl e, s1)
           | (Inr u, s1) \<Rightarrow>
               renderToolsGrid env ui
                 (s1\<lparr>state_tools := filter (\<lambda>t. \<not> has_id (heap s1) ident t) (state_tools s1)\<rparr>))"

definition toggleFavorite ::
    "platform \<Rightarrow> page \<Rightarrow> string \<Rightarrow> string \<Rightarrow> app_state \<Rightarrow> (error + unit) \<times> app_state" where
  "toggleFavorite env ui now ident s =
     (case List.find (has_id (heap s) ident) (state_tools s) of
        None \<Rightarrow> (Inr (), s)
      | Some tool \<Rightarrow>
          saveTool env ui now tool
            (s\<lparr>heap := (heap s)(tool :=
                  (heap s tool)(''favorite'' \<mapsto> JBool (\<not> truthy (heap s tool ''favorite''))))\<rparr>))"

section \<open>Export and import (lines 638-715)\<close>

text \<open>
  The document \<^verbatim>\<open>exportData\<close> serialises and \<^verbatim>\<open>handleImportFile\<close> parses. A top-level key
  that is missing (or holds a falsy value) is \<open>None\<close>; otherwise it holds a sequence of
  objects. \<^verbatim>\<open>JSON.stringify\<close> followed by \<^verbatim>\<open>JSON.parse\<close> gives every record back as a new
  object with the same fields, so the document carries the records by value.
\<close>

record snapshot =
  snap_notes :: "obj list option"
  snap_tools :: "obj list option"
  exportedAt :: "jsval option"

definition exportData :: "string \<Rightarrow> app_state \<Rightarrow> snapshot" where
  "exportData now s =
     \<lparr>snap_notes = Some (map (heap s) (state_notes s)),
      snap_tools = Some (map (heap s) (state_tools s)),
      exportedAt = Some (JStr now)\<rparr>"

fun mirror :: "store_name \<Rightarrow> app_state \<Rightarrow> ref list" where
  "mirror NotesStore s = state_notes s"
| "mirror ToolsStore s = state_tools s"

text \<open>
  \<^verbatim>\<open>state.notes.push(note)\<close> for a candidate of the parsed document: the candidate becomes
  a record of the heap, at a new reference, and the last element of the mirror.
\<close>

fun push_record :: "store_name \<Rightarrow> obj \<Rightarrow> app_state \<Rightarrow> app_state" where
  "push_record NotesStore item s =
     s\<lparr>heap := (heap s)(next_ref s := item), next_ref := Suc (next_ref s),
       state_notes := state_notes s @ [next_ref s], bare := bare s - {next_ref s}\<rparr>"
| "push_record ToolsStore item s =
     s\<lparr>heap := (heap s)(next_ref s := item), next_ref := Suc (next_ref s),
       state_tools := state_tools s @ [next_ref s], bare := bare s - {next_ref s}\<rparr>"

text \<open>\<^verbatim>\<open>Object.assign(existing, note)\<close> on a record of the heap.\<close>

definition assign_record :: "ref \<Rightarrow> obj \<Rightarrow> app_state \<Rightarrow> app_state" where
  "assign_record existing item s =
     s\<lparr>heap := (heap s)(existing := object_assign (existing \<in> bare s) (heap s existing) item),
       bare := (if loses_prototype (existing \<in> bare s) (heap s existing) item
                then insert existing (bare s) else bare s)\<rparr>"

text \<open>
  The two \<^verbatim>\<open>for ... of\<close> loops of \<^verbatim>\<open>handleImportFile\<close> (lines 676-687 and 690-701) are the
  same code on \<^verbatim>\<open>state.notes\<close>/\<^verbatim>\<open>'notes'\<close> and on \<^verbatim>\<open>state.tools\<close>/\<^verbatim>\<open>'tools'\<close>. A rejected
  \<^verbatim>\<open>await putInStore\<close> throws out of the loop, to the \<^verbatim>\<open>catch\<close> of line 708.
\<close>

fun merge_records ::
    "store_name \<Rightarrow> obj list \<Rightarrow> app_state \<Rightarrow> (error + unit) \<times> app_state" where
  "merge_records st [] s = (Inr (), s)"
| "merge_records st (item # rest) s =
     (case List.find (\<lambda>n. strict_eq (heap s n ''id'') (item ''id'')) (mirror st s) of
        Some existing \<Rightarrow>
          (let s1 = assign_record existing item s
           in case putInStore st (heap s1 existing) s1 of
                (Inl e, s2) \<Rightarrow> (Inl e, s2)
              | (Inr u, s2) \<Rightarrow> merge_records st rest s2)
      | None \<Rightarrow>
          (case putInStore st item s of
             (Inl e, s2) \<Rightarrow> (Inl e, s2)
           | (Inr u, s2) \<Rightarrow> merge_records st rest (push_record st item s2)))"

text \<open>
  The three messages \<^verbatim>\<open>handleImportFile\<close> can show. The two rendering calls between the
  loops and the success message are inside the \<^verbatim>\<open>try\<close>: an exception of either one goes
  to the \<^verbatim>\<open>catch\<close> as a rejected write does, after both loops have run.
\<close>

datatype import_alert = InvalidFormat | ImportSuccessful nat nat | ImportFailed

definition handleImportFile ::
    "platform \<Rightarrow> page \<Rightarrow> snapshot \<Rightarrow> app_state \<Rightarrow> import_alert \<times> app_state" where
  "handleImportFile env ui data s =
     (case (snap_notes data, snap_tools data) of
        (Some ns, Some ts) \<Rightarrow>
          (case merge_records NotesStore ns s of
             (Inl e, s1) \<Rightarrow> (ImportFailed, s1)
           | (Inr u, s1) \<Rightarrow>
               (case merge_records ToolsStore ts s1 of
                  (Inl e, s2) \<Rightarrow> (ImportFailed, s2)
                | (Inr u, s2) \<Rightarrow>
                    (case renderNotesList env ui s2 of
                       (Inl e, s3) \<Rightarrow> (ImportFailed, s3)
                     | (Inr u, s3) \<Rightarrow>
                         (case renderToolsGrid env ui s3 of
                            (Inl e, s4) \<Rightarrow> (ImportFailed, s4)
                          | (Inr u, s4) \<Rightarrow>
                              (ImportSuccessful (length ns) (length ts), s4)))))
      | _ \<Rightarrow> (InvalidFormat, s))"

section \<open>Predicates used in the properties\<close>

text \<open>
  Every record of a mirror has been allocated. New objects get references from
  \<open>next_ref\<close> on, so that an object made later is none of the mirrors' records.
\<close>

definition wf_state :: "app_state \<Rightarrow> bool" where
  "wf_state s = (\<forall>r \<in> set (state_notes s) \<union> set (state_tools s). r < next_ref s)"




text \<open>
  The value of \<^verbatim>\<open>filtered\<close> after the sort (lines 208 and 472), for the inputs of
  \<^verbatim>\<open>filterAndSortNotes\<close> and \<^verbatim>\<open>filterAndSortTools\<close>.
\<close>

definition notes_sorted :: "platform \<Rightarrow> string \<Rightarrow> string \<Rightarrow> app_state \<Rightarrow> error + ref list" where
  "notes_sorted env searchValue sortBy s =
     sort_stage
       (tag_callback (heap s) (activeTagFilter s))
       (if toLowerCase env searchValue = [] then None
        else Some (\<lambda>n. note_matches env (toLowerCase env searchValue) (heap s n)))
       (\<lambda>a b. notes_compare env sortBy (heap s a) (heap s b))
       (state_notes s)"

definition tools_sorted :: "platform \<Rightarrow> string \<Rightarrow> string \<Rightarrow> app_state \<Rightarrow> error + ref list" where
  "tools_sorted env searchValue sortBy s =
     sort_stage
       (tag_callback (heap s) (activeTagFilter s))
       (if toLowerCase env searchValue = [] then None
        else Some (\<lambda>t. tool_matches env (toLowerCase env searchValue) (heap s t)))
       (\<lambda>a b. tools_compare env sortBy (heap s a) (heap s b))
       (state_tools s)"

text \<open>The priority flags, as the last filters read them.\<close>

definition pinned :: "app_state \<Rightarrow> ref \<Rightarrow> bool" where
  "pinned s n = truthy (heap s n ''pinned'')"

definition favorite :: "app_state \<Rightarrow> ref \<Rightarrow> bool" where
  "favorite s t = truthy (heap s t ''favorite'')"

text \<open>
  The words of section 4.3 of the specification. A record has a tag sequence when its
  \<^verbatim>\<open>tags\<close> field is an array, and it has the tag \<open>t\<close> when the string \<open>t\<close> is an element of
  it. A text field contains the query when the field is a string whose lowercased form
  has the query as a contiguous piece; the tags contain it when one of them does.
\<close>

definition has_tag_sequence :: "obj \<Rightarrow> bool" where
  "has_tag_sequence r = (case r ''tags'' of Some (JArr vs) \<Rightarrow> True | _ \<Rightarrow> False)"

definition has_tag :: "obj \<Rightarrow> string \<Rightarrow> bool" where
  "has_tag r t = (case r ''tags'' of Some (JArr vs) \<Rightarrow> JStr t \<in> set vs | _ \<Rightarrow> False)"

definition text_contains :: "platform \<Rightarrow> string \<Rightarrow> jsval option \<Rightarrow> bool" where
  "text_contains env q v =
     (case v of Some (JStr s) \<Rightarrow> sublist q (toLowerCase env s) | _ \<Rightarrow> False)"

definition tags_contain :: "platform \<Rightarrow> string \<Rightarrow> jsval option \<Rightarrow> bool" where
  "tags_contain env q v =
     (case v of Some (JArr vs) \<Rightarrow> (\<exists>tag \<in> set vs. text_contains env q (Some tag))
      | _ \<Rightarrow> False)"

definition note_search_hit :: "platform \<Rightarrow> string \<Rightarrow> obj \<Rightarrow> bool" where
  "note_search_hit env q r =
     (text_contains env q (r ''title'') \<or> text_contains env q (r ''content'')
      \<or> tags_contain env q (r ''tags''))"

definition tool_search_hit :: "platform \<Rightarrow> string \<Rightarrow> obj \<Rightarrow> bool" where
  "tool_search_hit env q r =
     (text_contains env q (r ''name'') \<or> text_contains env q (r ''description'')
      \<or> text_contains env q (r ''url'') \<or> tags_contain env q (r ''tags''))"

text \<open>The tag filter keeps a record: it is switched off, or its callback returns true.\<close>

definition tag_filter_keeps :: "app_state \<Rightarrow> ref \<Rightarrow> bool" where
  "tag_filter_keeps s r =
     (case tag_callback (heap s) (activeTagFilter s) of
        None \<Rightarrow> True
      | Some p \<Rightarrow> p r = Inr True)"

text \<open>
  The invariant of section 3 of the specification: \<^verbatim>\<open>updatedAt >= createdAt\<close>, read as the
  comparison of the two dates. Both fields have to be valid dates for it to hold.
\<close>

definition timestamps_ordered :: "platform \<Rightarrow> obj \<Rightarrow> bool" where
  "timestamps_ordered env r =
     (case (dateValue env (r ''createdAt''), dateValue env (r ''updatedAt'')) of
        (Some c, Some u) \<Rightarrow> c \<le> u
      | _ \<Rightarrow> False)"

text \<open>Every record of the two mirrors satisfies the invariant.\<close>

definition mirrors_ordered :: "platform \<Rightarrow> app_state \<Rightarrow> bool" where
  "mirrors_ordered env s =
     (\<forall>r \<in> set (state_notes s) \<union> set (state_tools s). timestamps_ordered env (heap s r))"


text \<open>
  The records of a mirror are told apart by their ids: the ids are pairwise different, and
  each is a primitive value, so that \<^verbatim>\<open>===\<close> finds a record by the id of a copy of it.
\<close>

definition id_unique :: "(ref \<Rightarrow> obj) \<Rightarrow> ref list \<Rightarrow> bool" where
  "id_unique h rs =
     (distinct (map (\<lambda>r. h r ''id'') rs) \<and> (\<forall>r \<in> set rs. is_primitive (h r ''id'')))"

text \<open>
  The records of the data model: the text fields are strings and the tags are an array
  of strings. On such records no callback of the pipeline throws.
\<close>

fun is_string :: "jsval option \<Rightarrow> bool" where
  "is_string (Some (JStr s)) = True"
| "is_string v = False"

fun is_string_array :: "jsval option \<Rightarrow> bool" where
  "is_string_array (Some (JArr vs)) = list_all (\<lambda>v. is_string (Some v)) vs"
| "is_string_array v = False"

definition well_typed_note :: "obj \<Rightarrow> bool" where
  "well_typed_note r =
     (is_string (r ''title'') \<and> is_string (r ''content'') \<and> is_string_array (r ''tags''))"

definition well_typed_tool :: "obj \<Rightarrow> bool" where
  "well_typed_tool r =
     (is_string (r ''name'') \<and> is_string (r ''description'') \<and> is_string (r ''url'')
      \<and> is_string_array (r ''tags''))"

section \<open>Concrete inputs\<close>

text \<open>
  A small platform and a few states, on which the model is evaluated below. The platform
  lowers the ASCII letters, compares strings by their code units and knows the time value
  of two timestamps.
\<close>

definition ascii_lower :: "char \<Rightarrow> char" where
  "ascii_lower c =
     (case map_of (zip ''ABCDEFGHIJKLMNOPQRSTUVWXYZ'' ''abcdefghijklmnopqrstuvwxyz'') c of
        None \<Rightarrow> c | Some d \<Rightarrow> d)"

fun compare_codes :: "string \<Rightarrow> string \<Rightarrow> int" where
  "compare_codes [] [] = 0"
| "compare_codes [] (y # ys) = - 1"
| "compare_codes (x # xs) [] = 1"
| "compare_codes (x # xs) (y # ys) =
     (if (of_char x :: nat) < of_char y then - 1
      else if (of_char y :: nat) < of_char x then 1
      else compare_codes xs ys)"

definition day1 :: string where
  "day1 = ''2024-01-01T00:00:00.000Z''"

definition day2 :: string where
  "day2 = ''2024-01-02T00:00:00.000Z''"

definition example_page :: page where
  "example_page =
     \<lparr>notes_search = [], notes_sort = ''updated-desc'',
      tools_search = [], tools_sort = ''name-asc''\<rparr>"

definition example_platform :: platform where
  "example_platform =
     \<lparr>toLowerCase = map ascii_lower,
      localeCompare = (\<lambda>s v. case v of Some (JStr t) \<Rightarrow> compare_codes s t | _ \<Rightarrow> 0),
      dateValue = (\<lambda>v. if v = Some (JStr day1) then Some 1704067200000
                        else if v = Some (JStr day2) then Some 1704153600000
                        else None)\<rparr>"

text \<open>One note and one tool, both in their mirrors; no store request fails.\<close>

definition example_state :: app_state where
  "example_state =
     \<lparr>heap = (\<lambda>r. Map.empty)
         (0 := [''id'' \<mapsto> JStr ''a'', ''title'' \<mapsto> JStr ''X'', ''content'' \<mapsto> JStr [],
                ''tags'' \<mapsto> JArr [JStr ''t1''], ''pinned'' \<mapsto> JBool False,
                ''archived'' \<mapsto> JBool False,
                ''createdAt'' \<mapsto> JStr day1, ''updatedAt'' \<mapsto> JStr day1],
          1 := [''id'' \<mapsto> JStr ''b'', ''name'' \<mapsto> JStr ''Alpha'', ''url'' \<mapsto> JStr ''http://a.com'',
                ''description'' \<mapsto> JStr [], ''tags'' \<mapsto> JArr [], ''favorite'' \<mapsto> JBool False,
                ''createdAt'' \<mapsto> JStr day1, ''updatedAt'' \<mapsto> JStr day1]),
      next_ref = 2, state_notes = [0], state_tools = [1], currentNote = Some 0,
      activeTagFilter = None, isDirty = True, db = (\<lambda>st. Map.empty), faults = [],
      bare = {}\<rparr>"

text \<open>The same state when the next store request is going to fail.\<close>

definition failing_state :: app_state where
  "failing_state = example_state\<lparr>faults := [True]\<rparr>"

text \<open>A document with two notes and one tool that the mirrors do not hold.\<close>

definition new_records :: snapshot where
  "new_records =
     \<lparr>snap_notes = Some [[''id'' \<mapsto> JStr ''c1'', ''title'' \<mapsto> JStr ''First'',
                          ''content'' \<mapsto> JStr [], ''tags'' \<mapsto> JArr []],
                         [''id'' \<mapsto> JStr ''c2'', ''title'' \<mapsto> JStr ''Second'',
                          ''content'' \<mapsto> JStr [], ''tags'' \<mapsto> JArr []]],
      snap_tools = Some [[''id'' \<mapsto> JStr ''c3'', ''name'' \<mapsto> JStr ''Third'',
                          ''tags'' \<mapsto> JArr []]],
      exportedAt = None\<rparr>"

text \<open>The state when the third store request to come is going to fail.\<close>

definition late_failing_state :: app_state where
  "late_failing_state = example_state\<lparr>faults := [False, False, True]\<rparr>"








text \<open>
  A document whose only candidate is a note with an id and a title and nothing else, and
  the state its import leaves of \<open>example_state\<close>.
\<close>

definition thin_note :: obj where
  "thin_note = [''id'' \<mapsto> JStr ''c1'', ''title'' \<mapsto> JStr ''First'']"

definition thin_import :: snapshot where
  "thin_import = \<lparr>snap_notes = Some [thin_note], snap_tools = Some [], exportedAt = None\<rparr>"

definition thin_state :: app_state where
  "thin_state =
     example_state\<lparr>heap := (heap example_state)(2 := thin_note),
                    next_ref := 3, state_notes := [0, 2],
                    db := (db example_state)(NotesStore := [JStr ''c1'' \<mapsto> thin_note])\<rparr>"

text \<open>Two notes and two tools; the second of each has its priority flag set.\<close>

definition library_state :: app_state where
  "library_state =
     \<lparr>heap = (\<lambda>r. Map.empty)
         (0 := [''id'' \<mapsto> JStr ''n1'', ''title'' \<mapsto> JStr ''Groceries'', ''content'' \<mapsto> JStr ''Milk'',
                ''tags'' \<mapsto> JArr [JStr ''home''], ''pinned'' \<mapsto> JBool False,
                ''archived'' \<mapsto> JBool False,
                ''createdAt'' \<mapsto> JStr day1, ''updatedAt'' \<mapsto> JStr day1],
          1 := [''id'' \<mapsto> JStr ''n2'', ''title'' \<mapsto> JStr ''Plan'', ''content'' \<mapsto> JStr ''Alpha release'',
                ''tags'' \<mapsto> JArr [JStr ''work''], ''pinned'' \<mapsto> JBool True,
                ''archived'' \<mapsto> JBool False,
                ''createdAt'' \<mapsto> JStr day1, ''updatedAt'' \<mapsto> JStr day2],
          2 := [''id'' \<mapsto> JStr ''t1'', ''name'' \<mapsto> JStr ''Alpha'', ''url'' \<mapsto> JStr ''http://a.com'',
                ''description'' \<mapsto> JStr [], ''tags'' \<mapsto> JArr [], ''favorite'' \<mapsto> JBool False,
                ''createdAt'' \<mapsto> JStr day1, ''updatedAt'' \<mapsto> JStr day1],
          3 := [''id'' \<mapsto> JStr ''t2'', ''name'' \<mapsto> JStr ''Beta'', ''url'' \<mapsto> JStr ''http://b.com'',
                ''description'' \<mapsto> JStr [], ''tags'' \<mapsto> JArr [JStr ''work''], ''favorite'' \<mapsto> JBool True,
                ''createdAt'' \<mapsto> JStr day1, ''updatedAt'' \<mapsto> JStr day2]),
      next_ref = 4, state_notes = [0, 1], state_tools = [2, 3], currentNote = None,
      activeTagFilter = None, isDirty = False, db = (\<lambda>st. Map.empty), faults = [],
      bare = {}\<rparr>"

text \<open>The state above with the tag filter set to a tag, and set to the empty string.\<close>

definition work_filter_state :: app_state where
  "work_filter_state = library_state\<lparr>activeTagFilter := Some ''work''\<rparr>"

definition empty_filter_state :: app_state where
  "empty_filter_state = library_state\<lparr>activeTagFilter := Some []\<rparr>"



text \<open>A state whose only note has an array as its id (a valid key of the store).\<close>

definition array_id_state :: app_state where
  "array_id_state =
     \<lparr>heap = (\<lambda>r. Map.empty)
         (0 := [''id'' \<mapsto> JArr [JNum 1], ''title'' \<mapsto> JStr ''X'', ''content'' \<mapsto> JStr [],
                ''tags'' \<mapsto> JArr [], ''pinned'' \<mapsto> JBool False, ''archived'' \<mapsto> JBool False,
                ''createdAt'' \<mapsto> JStr day1, ''updatedAt'' \<mapsto> JStr day1]),
      next_ref = 1, state_notes = [0], state_tools = [], currentNote = None,
      activeTagFilter = None, isDirty = False, db = (\<lambda>st. Map.empty), faults = [],
      bare = {}\<rparr>"

section \<open>Properties\<close>

subsection \<open>Store requests\<close>

lemma putInStore_fails:
  assumes "putInStore st item s = (Inl e, s')"
  shows "heap s' = heap s \<and> state_notes s' = state_notes s \<and> state_tools s' = state_tools s \<and> db s' = db s
         \<and> next_ref s' = next_ref s \<and> currentNote s' = currentNote s
         \<and> activeTagFilter s' = activeTagFilter s \<and> isDirty s' = isDirty s"
  using assms
  by (auto simp: putInStore_def next_request_def
           split: option.splits if_splits list.splits bool.splits)


subsection \<open>The query pipeline\<close>

text \<open>The definitions that evaluate the pipeline on the concrete inputs.\<close>

lemmas eval_defs = library_state_def example_platform_def day1_def day2_def
  filterAndSortNotes_def filterAndSortTools_def filterAndSort_def bindA_def returnA_def
  array_new_def array_spread_def array_spread2_def array_filter_def array_sort_def array_read_def
  tag_callback_def note_matches_def tool_matches_def notes_compare_def tools_compare_def
  date_diff_def bindE_def orE_def ascii_lower_def Let_def

lemma str_includes_sublist: "str_includes s q \<longleftrightarrow> sublist q s"
  by (induction s) (auto simp: sublist_Cons_right)

lemma bindE_Inr:
  "bindE m f = Inr y \<longleftrightarrow> (\<exists>x. m = Inr x \<and> f x = Inr y)"
  by (cases m) (simp_all add: bindE_def)

lemma filterE_Inr:
  assumes "filterE p xs = Inr ys"
  shows "ys = filter (\<lambda>x. p x = Inr True) xs" and "\<forall>x \<in> set xs. \<exists>b. p x = Inr b"
  using assms
  by (induction xs arbitrary: ys) (auto simp: bindE_Inr split: if_splits)

lemma filterE_total: "filterE (\<lambda>n. Inr (p n)) xs = Inr (filter p xs)"
  by (induction xs) (simp_all add: bindE_def)

lemma someE_Inr:
  assumes "someE p xs = Inr b"
  shows "b \<longleftrightarrow> (\<exists>x \<in> set xs. p x = Inr True)"
  using assms
  by (induction xs arbitrary: b) (auto simp: bindE_Inr split: if_splits)

lemma orE_Inr:
  "orE a b = Inr r \<longleftrightarrow> (a = Inr True \<and> r) \<or> (a = Inr False \<and> b = Inr r)"
  by (cases a) (auto simp: orE_def bindE_def)

lemma insert_by_mset:
  assumes "insert_by cmp x ys = Inr zs"
  shows "mset zs = add_mset x (mset ys)"
  using assms
  by (induction ys arbitrary: zs) (auto simp: bindE_Inr split: if_splits)

lemma sort_by_mset:
  assumes "sort_by cmp xs = Inr ys"
  shows "mset ys = mset xs"
  using assms
  by (induction xs arbitrary: ys) (auto simp: bindE_Inr dest: insert_by_mset)

lemma priority_first_order:
  assumes "i < j" and "j < length (priority_first pr zs)" and "pr (priority_first pr zs ! j)"
  shows "pr (priority_first pr zs ! i)"
proof (cases "j < length (filter pr zs)")
  case True
  then have "i < length (filter pr zs)" using assms(1) by simp
  then have "priority_first pr zs ! i = filter pr zs ! i" and "filter pr zs ! i \<in> set (filter pr zs)"
    by (simp_all add: priority_first_def nth_append del: set_filter)
  then show ?thesis by simp
next
  case False
  then have "priority_first pr zs ! j = filter (\<lambda>n. \<not> pr n) zs ! (j - length (filter pr zs))"
    by (simp add: priority_first_def nth_append)
  moreover have "j - length (filter pr zs) < length (filter (\<lambda>n. \<not> pr n) zs)"
    using False assms(2) by (simp add: priority_first_def)
  ultimately have "priority_first pr zs ! j \<in> set (filter (\<lambda>n. \<not> pr n) zs)"
    by (metis nth_mem)
  then show ?thesis using assms(3) by simp
qed

lemma priority_first_groups:
  "filter pr (priority_first pr zs) = filter pr zs"
  "filter (\<lambda>n. \<not> pr n) (priority_first pr zs) = filter (\<lambda>n. \<not> pr n) zs"
  by (simp_all add: priority_first_def)

lemma priority_first_mset: "mset (priority_first pr zs) = mset zs"
  by (simp add: priority_first_def)

lemma filterAndSort_result:
  "fst (filterAndSort 0 tf sf cmp pr [xs]) =
     (case sort_stage tf sf cmp xs of Inl e \<Rightarrow> Inl e | Inr zs \<Rightarrow> Inr (priority_first pr zs))"
  by (auto simp: filterAndSort_def sort_stage_def filter_stage_def priority_first_def bindA_def
        bindE_def returnA_def array_new_def array_spread_def array_spread2_def array_filter_def
        array_sort_def array_read_def filterE_total nth_append
      split: option.splits sum.splits prod.splits)

lemma filterAndSort_source_array:
  "snd (filterAndSort 0 tf sf cmp pr [xs]) ! 0 = xs"
  by (auto simp: filterAndSort_def bindA_def
        bindE_def returnA_def array_new_def array_spread_def array_spread2_def array_filter_def
        array_sort_def array_read_def filterE_total nth_append
      split: option.splits sum.splits prod.splits)

lemma pinned_fun: "pinned s = (\<lambda>n. truthy (heap s n ''pinned''))"
  by (rule ext) (simp add: pinned_def)

lemma favorite_fun: "favorite s = (\<lambda>t. truthy (heap s t ''favorite''))"
  by (rule ext) (simp add: favorite_def)

lemma filterAndSortNotes_result:
  "fst (filterAndSortNotes env searchValue sortBy s) =
     (case notes_sorted env searchValue sortBy s of
        Inl e \<Rightarrow> Inl e | Inr zs \<Rightarrow> Inr (priority_first (pinned s) zs))"
  using filterAndSort_result [of "tag_callback (heap s) (activeTagFilter s)"
      "if toLowerCase env searchValue = [] then None
       else Some (\<lambda>n. note_matches env (toLowerCase env searchValue) (heap s n))"
      "\<lambda>a b. notes_compare env sortBy (heap s a) (heap s b)"
      "\<lambda>n. truthy (heap s n ''pinned'')" "state_notes s"]
  unfolding pinned_fun
  by (simp add: filterAndSortNotes_def notes_sorted_def Let_def split_def)

lemma filterAndSortTools_result:
  "fst (filterAndSortTools env searchValue sortBy s) =
     (case tools_sorted env searchValue sortBy s of
        Inl e \<Rightarrow> Inl e | Inr zs \<Rightarrow> Inr (priority_first (favorite s) zs))"
  using filterAndSort_result [of "tag_callback (heap s) (activeTagFilter s)"
      "if toLowerCase env searchValue = [] then None
       else Some (\<lambda>t. tool_matches env (toLowerCase env searchValue) (heap s t))"
      "\<lambda>a b. tools_compare env sortBy (heap s a) (heap s b)"
      "\<lambda>t. truthy (heap s t ''favorite'')" "state_tools s"]
  unfolding favorite_fun
  by (simp add: filterAndSortTools_def tools_sorted_def Let_def split_def)

lemma filterAndSortNotes_state: "snd (filterAndSortNotes env searchValue sortBy s) = s"
  using filterAndSort_source_array [of "tag_callback (heap s) (activeTagFilter s)"
      "if toLowerCase env searchValue = [] then None
       else Some (\<lambda>n. note_matches env (toLowerCase env searchValue) (heap s n))"
      "\<lambda>a b. notes_compare env sortBy (heap s a) (heap s b)"
      "\<lambda>n. truthy (heap s n ''pinned'')" "state_notes s"]
  by (simp add: filterAndSortNotes_def Let_def split_def)

lemma filterAndSortTools_state: "snd (filterAndSortTools env searchValue sortBy s) = s"
  using filterAndSort_source_array [of "tag_callback (heap s) (activeTagFilter s)"
      "if toLowerCase env searchValue = [] then None
       else Some (\<lambda>t. tool_matches env (toLowerCase env searchValue) (heap s t))"
      "\<lambda>a b. tools_compare env sortBy (heap s a) (heap s b)"
      "\<lambda>t. truthy (heap s t ''favorite'')" "state_tools s"]
  by (simp add: filterAndSortTools_def Let_def split_def)

lemma lower_includes_Inr:
  assumes "lower_includes env v q = Inr b"
  shows "b = text_contains env q v"
  using assms
  by (cases "(env, v, q)" rule: lower_includes.cases)
     (auto simp: text_contains_def str_includes_sublist)

lemma lower_includes_True:
  "lower_includes env v q = Inr True \<longleftrightarrow> text_contains env q v"
  by (cases "(env, v, q)" rule: lower_includes.cases)
     (auto simp: text_contains_def str_includes_sublist)

lemma tags_some_Inr:
  assumes "tags_some env v q = Inr b"
  shows "b = tags_contain env q v"
  using assms
  by (cases "(env, v, q)" rule: tags_some.cases)
     (auto simp: tags_contain_def lower_includes_True dest!: someE_Inr)

lemma note_matches_Inr:
  assumes "note_matches env q r = Inr b"
  shows "b = note_search_hit env q r"
  using assms
  by (auto simp: note_matches_def note_search_hit_def orE_Inr
           dest!: lower_includes_Inr tags_some_Inr)

lemma tool_matches_Inr:
  assumes "tool_matches env q r = Inr b"
  shows "b = tool_search_hit env q r"
  using assms
  by (auto simp: tool_matches_def tool_search_hit_def orE_Inr
           dest!: lower_includes_Inr tags_some_Inr)

lemma filter_stage_Inr:
  assumes "filter_stage p xs = Inr ys"
  shows "ys = filter (\<lambda>x. case p of None \<Rightarrow> True | Some q \<Rightarrow> q x = Inr True) xs"
    and "\<forall>x \<in> set xs. case p of None \<Rightarrow> True | Some q \<Rightarrow> (\<exists>b. q x = Inr b)"
  using assms filterE_Inr [of "the p" xs ys]
  by (auto simp: filter_stage_def split: option.splits)

lemma sort_stage_Inr:
  assumes "sort_stage tf sf cmp xs = Inr zs"
  shows "mset zs = mset (filter (\<lambda>x. (case tf of None \<Rightarrow> True | Some q \<Rightarrow> q x = Inr True)
                               \<and> (case sf of None \<Rightarrow> True | Some q \<Rightarrow> q x = Inr True)) xs)"
    and "\<forall>x \<in> set xs. (case tf of None \<Rightarrow> True | Some q \<Rightarrow> q x = Inr True) \<longrightarrow>
                        (case sf of None \<Rightarrow> True | Some q \<Rightarrow> (\<exists>b. q x = Inr b))"
proof -
  from assms obtain ys ws where
      a: "filter_stage tf xs = Inr ys" and b: "filter_stage sf ys = Inr ws"
      and c: "sort_by cmp ws = Inr zs"
    by (auto simp: sort_stage_def bindE_Inr)
  note fa = filter_stage_Inr [OF a] and fb = filter_stage_Inr [OF b]
  show "mset zs = mset (filter (\<lambda>x. (case tf of None \<Rightarrow> True | Some q \<Rightarrow> q x = Inr True)
                               \<and> (case sf of None \<Rightarrow> True | Some q \<Rightarrow> q x = Inr True)) xs)"
    using sort_by_mset [OF c] fa(1) fb(1) by (simp add: conj_commute)
  show "\<forall>x \<in> set xs. (case tf of None \<Rightarrow> True | Some q \<Rightarrow> q x = Inr True) \<longrightarrow>
                        (case sf of None \<Rightarrow> True | Some q \<Rightarrow> (\<exists>b. q x = Inr b))"
    using fa(1) fb(2) by auto
qed

lemma notes_sorted_members:
  assumes "notes_sorted env searchValue sortBy s = Inr zs"
  shows "n \<in> set zs \<longleftrightarrow>
           n \<in> set (state_notes s) \<and> tag_filter_keeps s n
           \<and> (toLowerCase env searchValue = []
               \<or> note_search_hit env (toLowerCase env searchValue) (heap s n))"
proof -
  let ?q = "toLowerCase env searchValue"
  let ?sf = "if ?q = [] then None else Some (\<lambda>n. note_matches env ?q (heap s n))"
  note st = sort_stage_Inr [OF assms [unfolded notes_sorted_def]]
  have hit: "note_matches env ?q (heap s n) = Inr True \<longleftrightarrow> note_search_hit env ?q (heap s n)"
    if "n \<in> set (state_notes s)" "tag_filter_keeps s n" "?q \<noteq> []"
  proof -
    from st(2) that obtain b where "note_matches env ?q (heap s n) = Inr b"
      by (auto simp: tag_filter_keeps_def split: option.splits)
    then show ?thesis using note_matches_Inr by fastforce
  qed
  have "n \<in> set zs \<longleftrightarrow> n \<in># mset zs" by simp
  also have "\<dots> \<longleftrightarrow> n \<in> set (state_notes s) \<and> tag_filter_keeps s n
      \<and> (case ?sf of None \<Rightarrow> True | Some q \<Rightarrow> q n = Inr True)"
    unfolding st(1) by (auto simp: tag_filter_keeps_def split: option.splits)
  also have "\<dots> \<longleftrightarrow> n \<in> set (state_notes s) \<and> tag_filter_keeps s n
      \<and> (?q = [] \<or> note_search_hit env ?q (heap s n))"
    using hit by auto
  finally show ?thesis .
qed

lemma tools_sorted_members:
  assumes "tools_sorted env searchValue sortBy s = Inr zs"
  shows "t \<in> set zs \<longleftrightarrow>
           t \<in> set (state_tools s) \<and> tag_filter_keeps s t
           \<and> (toLowerCase env searchValue = []
               \<or> tool_search_hit env (toLowerCase env searchValue) (heap s t))"
proof -
  let ?q = "toLowerCase env searchValue"
  let ?sf = "if ?q = [] then None else Some (\<lambda>t. tool_matches env ?q (heap s t))"
  note st = sort_stage_Inr [OF assms [unfolded tools_sorted_def]]
  have hit: "tool_matches env ?q (heap s t) = Inr True \<longleftrightarrow> tool_search_hit env ?q (heap s t)"
    if "t \<in> set (state_tools s)" "tag_filter_keeps s t" "?q \<noteq> []"
  proof -
    from st(2) that obtain b where "tool_matches env ?q (heap s t) = Inr b"
      by (auto simp: tag_filter_keeps_def split: option.splits)
    then show ?thesis using tool_matches_Inr by fastforce
  qed
  have "t \<in> set zs \<longleftrightarrow> t \<in># mset zs" by simp
  also have "\<dots> \<longleftrightarrow> t \<in> set (state_tools s) \<and> tag_filter_keeps s t
      \<and> (case ?sf of None \<Rightarrow> True | Some q \<Rightarrow> q t = Inr True)"
    unfolding st(1) by (auto simp: tag_filter_keeps_def split: option.splits)
  also have "\<dots> \<longleftrightarrow> t \<in> set (state_tools s) \<and> tag_filter_keeps s t
      \<and> (?q = [] \<or> tool_search_hit env ?q (heap s t))"
    using hit by auto
  finally show ?thesis .
qed

lemma filterAndSortNotes_Inr:
  assumes "fst (filterAndSortNotes env searchValue sortBy s) = Inr rs"
  shows "\<exists>zs. notes_sorted env searchValue sortBy s = Inr zs \<and> rs = priority_first (pinned s) zs"
  using assms unfolding filterAndSortNotes_result by (auto split: sum.splits)

lemma filterAndSortTools_Inr:
  assumes "fst (filterAndSortTools env searchValue sortBy s) = Inr rs"
  shows "\<exists>zs. tools_sorted env searchValue sortBy s = Inr zs \<and> rs = priority_first (favorite s) zs"
  using assms unfolding filterAndSortTools_result by (auto split: sum.splits)

lemma set_priority_first [simp]: "set (priority_first pr zs) = set zs"
  by (auto simp: priority_first_def)

text \<open>
  No array that exists when the pipeline starts is changed by it, wherever the mirror
  is in the store of arrays.
\<close>

lemma filterAndSort_old_arrays:
  assumes "src < length A" and "i < length A"
  shows "snd (filterAndSort src tf sf cmp pr A) ! i = A ! i"
  using assms
  by (auto simp: filterAndSort_def bindA_def
        bindE_def returnA_def array_new_def array_spread_def array_spread2_def array_filter_def
        array_sort_def array_read_def filterE_total nth_append
      split: option.splits sum.splits prod.splits)

text \<open>On a mirror of well-typed records both functions return a result.\<close>

lemma is_string_iff: "is_string v \<longleftrightarrow> (\<exists>s. v = Some (JStr s))"
  by (cases v rule: is_string.cases) simp_all

lemma is_string_array_iff:
  "is_string_array v \<longleftrightarrow> (\<exists>vs. v = Some (JArr vs) \<and> (\<forall>x \<in> set vs. is_string (Some x)))"
  by (cases v rule: is_string_array.cases) (simp_all add: list_all_iff)

lemma filterE_returns:
  assumes "\<forall>x \<in> set xs. \<exists>b. p x = Inr b"
  shows "\<exists>ys. filterE p xs = Inr ys"
  using assms by (induction xs) (auto simp: bindE_def)

lemma someE_returns:
  assumes "\<forall>x \<in> set xs. \<exists>b. p x = Inr b"
  shows "\<exists>b. someE p xs = Inr b"
  using assms by (induction xs) (auto simp: bindE_def)

lemma lower_includes_returns: "is_string v \<Longrightarrow> \<exists>b. lower_includes env v q = Inr b"
  by (auto simp: is_string_iff)

lemma tags_some_returns: "is_string_array v \<Longrightarrow> \<exists>b. tags_some env v q = Inr b"
  by (auto simp: is_string_array_iff intro!: someE_returns lower_includes_returns)

lemma tags_includes_returns: "is_string_array v \<Longrightarrow> \<exists>b. tags_includes v t = Inr b"
  by (auto simp: is_string_array_iff)

lemma orE_returns: "\<exists>x. a = Inr x \<Longrightarrow> \<exists>y. b = Inr y \<Longrightarrow> \<exists>r. orE a b = Inr r"
  by (auto simp: orE_def bindE_def)

lemma note_matches_returns: "well_typed_note r \<Longrightarrow> \<exists>b. note_matches env q r = Inr b"
  unfolding note_matches_def well_typed_note_def
  by (intro orE_returns lower_includes_returns tags_some_returns) simp_all

lemma tool_matches_returns: "well_typed_tool r \<Longrightarrow> \<exists>b. tool_matches env q r = Inr b"
  unfolding tool_matches_def well_typed_tool_def
  by (intro orE_returns lower_includes_returns tags_some_returns) simp_all

lemma insert_by_returns:
  assumes "\<forall>y \<in> set ys. \<exists>c. cmp x y = Inr c"
  shows "\<exists>zs. insert_by cmp x ys = Inr zs"
  using assms by (induction ys) (auto simp: bindE_def)

lemma sort_by_returns:
  assumes "\<forall>x \<in> set xs. \<forall>y \<in> set xs. \<exists>c. cmp x y = Inr c"
  shows "\<exists>ys. sort_by cmp xs = Inr ys"
  using assms
proof (induction xs)
  case Nil
  then show ?case by simp
next
  case (Cons x xs)
  then obtain ys where ys: "sort_by cmp xs = Inr ys" by auto
  then have "set ys = set xs" using sort_by_mset mset_eq_setD by blast
  then have "\<forall>y \<in> set ys. \<exists>c. cmp x y = Inr c" using Cons.prems by simp
  then have "\<exists>zs. insert_by cmp x ys = Inr zs" by (rule insert_by_returns [of ys cmp x])
  with ys show ?case by (simp add: bindE_def)
qed

lemma text_compare_returns: "is_string x \<Longrightarrow> \<exists>c. text_compare env x y = Inr c"
  by (auto simp: is_string_iff)

lemma notes_compare_returns:
  "well_typed_note a \<Longrightarrow> well_typed_note b \<Longrightarrow> \<exists>c. notes_compare env sortBy a b = Inr c"
  by (auto simp: notes_compare_def well_typed_note_def intro: text_compare_returns)

lemma tools_compare_returns:
  "well_typed_tool a \<Longrightarrow> well_typed_tool b \<Longrightarrow> \<exists>c. tools_compare env sortBy a b = Inr c"
  by (auto simp: tools_compare_def well_typed_tool_def intro: text_compare_returns)

lemma filter_stage_returns:
  assumes "\<forall>x \<in> set xs. case p of None \<Rightarrow> True | Some q \<Rightarrow> (\<exists>b. q x = Inr b)"
  shows "\<exists>ys. filter_stage p xs = Inr ys \<and> set ys \<subseteq> set xs"
proof (cases p)
  case None
  then show ?thesis by (simp add: filter_stage_def)
next
  case (Some q)
  with assms obtain ys where "filterE q xs = Inr ys"
    using filterE_returns [of xs q] by auto
  with Some filterE_Inr(1) [OF this] show ?thesis
    by (auto simp: filter_stage_def)
qed

lemma sort_stage_returns:
  assumes "\<forall>x \<in> set xs. case tf of None \<Rightarrow> True | Some q \<Rightarrow> (\<exists>b. q x = Inr b)"
      and "\<forall>x \<in> set xs. case sf of None \<Rightarrow> True | Some q \<Rightarrow> (\<exists>b. q x = Inr b)"
      and "\<forall>x \<in> set xs. \<forall>y \<in> set xs. \<exists>c. cmp x y = Inr c"
  shows "\<exists>zs. sort_stage tf sf cmp xs = Inr zs"
proof -
  from filter_stage_returns [of xs tf] assms(1) obtain ys where
    ys: "filter_stage tf xs = Inr ys" "set ys \<subseteq> set xs" by blast
  have "\<forall>x \<in> set ys. case sf of None \<Rightarrow> True | Some q \<Rightarrow> (\<exists>b. q x = Inr b)"
    using assms(2) ys(2) by blast
  from filter_stage_returns [of ys sf] this obtain ws where
    ws: "filter_stage sf ys = Inr ws" "set ws \<subseteq> set ys" by blast
  have "\<forall>x \<in> set ws. \<forall>y \<in> set ws. \<exists>c. cmp x y = Inr c"
    using assms(3) ys(2) ws(2) by blast
  then obtain zs where "sort_by cmp ws = Inr zs"
    using sort_by_returns [of ws cmp] by blast
  with ys(1) ws(1) show ?thesis by (simp add: sort_stage_def bindE_def)
qed

lemma filterAndSortNotes_returns:
  assumes "\<forall>n \<in> set (state_notes s). well_typed_note (heap s n)"
  shows "\<exists>rs. fst (filterAndSortNotes env searchValue sortBy s) = Inr rs"
proof -
  have "\<exists>zs. notes_sorted env searchValue sortBy s = Inr zs"
    unfolding notes_sorted_def
  proof (rule sort_stage_returns)
    show "\<forall>x \<in> set (state_notes s).
            case tag_callback (heap s) (activeTagFilter s) of None \<Rightarrow> True
            | Some q \<Rightarrow> (\<exists>b. q x = Inr b)"
      using assms
      by (auto simp: tag_callback_def well_typed_note_def split: option.splits
               intro: tags_includes_returns)
    show "\<forall>x \<in> set (state_notes s).
            case (if toLowerCase env searchValue = [] then None
                  else Some (\<lambda>n. note_matches env (toLowerCase env searchValue) (heap s n))) of
              None \<Rightarrow> True | Some q \<Rightarrow> (\<exists>b. q x = Inr b)"
      using assms by (auto intro: note_matches_returns)
    show "\<forall>x \<in> set (state_notes s). \<forall>y \<in> set (state_notes s).
            \<exists>c. notes_compare env sortBy (heap s x) (heap s y) = Inr c"
      using assms by (auto intro: notes_compare_returns)
  qed
  then show ?thesis by (auto simp: filterAndSortNotes_result)
qed

lemma filterAndSortTools_returns:
  assumes "\<forall>t \<in> set (state_tools s). well_typed_tool (heap s t)"
  shows "\<exists>ts. fst (filterAndSortTools env searchValue sortBy s) = Inr ts"
proof -
  have "\<exists>zs. tools_sorted env searchValue sortBy s = Inr zs"
    unfolding tools_sorted_def
  proof (rule sort_stage_returns)
    show "\<forall>x \<in> set (state_tools s).
            case tag_callback (heap s) (activeTagFilter s) of None \<Rightarrow> True
            | Some q \<Rightarrow> (\<exists>b. q x = Inr b)"
      using assms
      by (auto simp: tag_callback_def well_typed_tool_def split: option.splits
               intro: tags_includes_returns)
    show "\<forall>x \<in> set (state_tools s).
            case (if toLowerCase env searchValue = [] then None
                  else Some (\<lambda>t. tool_matches env (toLowerCase env searchValue) (heap s t))) of
              None \<Rightarrow> True | Some q \<Rightarrow> (\<exists>b. q x = Inr b)"
      using assms by (auto intro: tool_matches_returns)
    show "\<forall>x \<in> set (state_tools s). \<forall>y \<in> set (state_tools s).
            \<exists>c. tools_compare env sortBy (heap s x) (heap s y) = Inr c"
      using assms by (auto intro: tools_compare_returns)
  qed
  then show ?thesis by (auto simp: filterAndSortTools_result)
qed

text \<open>
  C5. When \<^verbatim>\<open>filterAndSortNotes\<close> (\<^verbatim>\<open>filterAndSortTools\<close>) returns a result, the result
  is the sorted array with its pinned (favorite) records first and the others after them,
  each group in the order the sort step gave it. So every record with the flag comes
  before every record without it, and no record without the flag is directly followed by
  one with the flag.
\<close>

theorem priority_records_first:
  "(fst (filterAndSortNotes env searchValue sortBy s) = Inr rs \<longrightarrow>
      (\<exists>sorted. notes_sorted env searchValue sortBy s = Inr sorted
          \<and> rs = filter (pinned s) sorted @ filter (\<lambda>n. \<not> pinned s n) sorted
          \<and> filter (pinned s) rs = filter (pinned s) sorted
          \<and> filter (\<lambda>n. \<not> pinned s n) rs = filter (\<lambda>n. \<not> pinned s n) sorted)
      \<and> (\<forall>i j. i < j \<and> j < length rs \<and> pinned s (rs ! j) \<longrightarrow> pinned s (rs ! i))
      \<and> (\<forall>i. Suc i < length rs \<longrightarrow> \<not> (\<not> pinned s (rs ! i) \<and> pinned s (rs ! Suc i))))
   \<and> (fst (filterAndSortTools env searchValue sortBy s) = Inr ts \<longrightarrow>
      (\<exists>sorted. tools_sorted env searchValue sortBy s = Inr sorted
          \<and> ts = filter (favorite s) sorted @ filter (\<lambda>t. \<not> favorite s t) sorted
          \<and> filter (favorite s) ts = filter (favorite s) sorted
          \<and> filter (\<lambda>t. \<not> favorite s t) ts = filter (\<lambda>t. \<not> favorite s t) sorted)
      \<and> (\<forall>i j. i < j \<and> j < length ts \<and> favorite s (ts ! j) \<longrightarrow> favorite s (ts ! i))
      \<and> (\<forall>i. Suc i < length ts \<longrightarrow> \<not> (\<not> favorite s (ts ! i) \<and> favorite s (ts ! Suc i))))"
proof (intro conjI impI)
  assume "fst (filterAndSortNotes env searchValue sortBy s) = Inr rs"
  from filterAndSortNotes_Inr [OF this] obtain zs where
      z: "notes_sorted env searchValue sortBy s = Inr zs" and r: "rs = priority_first (pinned s) zs"
    by blast
  show "\<exists>sorted. notes_sorted env searchValue sortBy s = Inr sorted
          \<and> rs = filter (pinned s) sorted @ filter (\<lambda>n. \<not> pinned s n) sorted
          \<and> filter (pinned s) rs = filter (pinned s) sorted
          \<and> filter (\<lambda>n. \<not> pinned s n) rs = filter (\<lambda>n. \<not> pinned s n) sorted"
    using z r priority_first_groups [of "pinned s" zs] by (auto simp: priority_first_def)
  show "\<forall>i j. i < j \<and> j < length rs \<and> pinned s (rs ! j) \<longrightarrow> pinned s (rs ! i)"
    using r priority_first_order [of _ _ "pinned s" zs] by blast
  show "\<forall>i. Suc i < length rs \<longrightarrow> \<not> (\<not> pinned s (rs ! i) \<and> pinned s (rs ! Suc i))"
    using r priority_first_order [of _ _ "pinned s" zs] by (metis lessI)
next
  assume "fst (filterAndSortTools env searchValue sortBy s) = Inr ts"
  from filterAndSortTools_Inr [OF this] obtain zs where
      z: "tools_sorted env searchValue sortBy s = Inr zs" and r: "ts = priority_first (favorite s) zs"
    by blast
  show "\<exists>sorted. tools_sorted env searchValue sortBy s = Inr sorted
          \<and> ts = filter (favorite s) sorted @ filter (\<lambda>t. \<not> favorite s t) sorted
          \<and> filter (favorite s) ts = filter (favorite s) sorted
          \<and> filter (\<lambda>t. \<not> favorite s t) ts = filter (\<lambda>t. \<not> favorite s t) sorted"
    using z r priority_first_groups [of "favorite s" zs] by (auto simp: priority_first_def)
  show "\<forall>i j. i < j \<and> j < length ts \<and> favorite s (ts ! j) \<longrightarrow> favorite s (ts ! i)"
    using r priority_first_order [of _ _ "favorite s" zs] by blast
  show "\<forall>i. Suc i < length ts \<longrightarrow> \<not> (\<not> favorite s (ts ! i) \<and> favorite s (ts ! Suc i))"
    using r priority_first_order [of _ _ "favorite s" zs] by (metis lessI)
qed

theorem priority_records_first_witness:
  "fst (filterAndSortNotes example_platform [] ''updated-asc'' library_state) = Inr [1, 0]
   \<and> fst (filterAndSortTools example_platform ''a'' ''name-desc'' library_state) = Inr [3, 2]
   \<and> (\<exists>sorted. notes_sorted example_platform [] ''updated-asc'' library_state = Inr sorted
         \<and> [1, 0] = filter (pinned library_state) sorted
                     @ filter (\<lambda>n. \<not> pinned library_state n) sorted)
   \<and> (\<exists>sorted. tools_sorted example_platform ''a'' ''name-desc'' library_state = Inr sorted
         \<and> [3, 2] = filter (favorite library_state) sorted
                     @ filter (\<lambda>t. \<not> favorite library_state t) sorted)
   \<and> \<not> (\<not> pinned library_state ([1, 0] ! 0) \<and> pinned library_state ([1, 0] ! Suc 0))
   \<and> \<not> (\<not> favorite library_state ([3, 2] ! 0) \<and> favorite library_state ([3, 2] ! Suc 0))"
proof -
  have a: "fst (filterAndSortNotes example_platform [] ''updated-asc'' library_state) = Inr [1, 0]"
    by (simp add: eval_defs)
  have b: "fst (filterAndSortTools example_platform ''a'' ''name-desc'' library_state) = Inr [3, 2]"
    by (simp add: eval_defs)
  have l: "Suc 0 < length [1, 0 :: nat]" "Suc 0 < length [3, 2 :: nat]" by simp_all
  note n = priority_records_first [of example_platform "[]" "''updated-asc''" library_state
        "[1, 0]" "[]", THEN conjunct1, THEN mp, OF a]
  note t = priority_records_first [of example_platform "''a''" "''name-desc''" library_state
        "[]" "[3, 2]", THEN conjunct2, THEN mp, OF b]
  from n have n1: "\<exists>sorted. notes_sorted example_platform [] ''updated-asc'' library_state = Inr sorted
         \<and> [1, 0] = filter (pinned library_state) sorted
                     @ filter (\<lambda>n. \<not> pinned library_state n) sorted"
    by (elim conjE exE) (intro exI conjI, assumption+)
  from n have "\<forall>i. Suc i < length [1, 0 :: nat] \<longrightarrow>
      \<not> (\<not> pinned library_state ([1, 0] ! i) \<and> pinned library_state ([1, 0] ! Suc i))"
    by (elim conjE)
  from this [THEN spec, of 0, THEN mp, OF l(1)]
  have n2: "\<not> (\<not> pinned library_state ([1, 0] ! 0) \<and> pinned library_state ([1, 0] ! Suc 0))" .
  from t have t1: "\<exists>sorted. tools_sorted example_platform ''a'' ''name-desc'' library_state = Inr sorted
         \<and> [3, 2] = filter (favorite library_state) sorted
                     @ filter (\<lambda>t. \<not> favorite library_state t) sorted"
    by (elim conjE exE) (intro exI conjI, assumption+)
  from t have "\<forall>i. Suc i < length [3, 2 :: nat] \<longrightarrow>
      \<not> (\<not> favorite library_state ([3, 2] ! i) \<and> favorite library_state ([3, 2] ! Suc i))"
    by (elim conjE)
  from this [THEN spec, of 0, THEN mp, OF l(2)]
  have t2: "\<not> (\<not> favorite library_state ([3, 2] ! 0) \<and> favorite library_state ([3, 2] ! Suc 0))" .
  from a b n1 n2 t1 t2 show ?thesis by (intro conjI)
qed

text \<open>
  C9. Neither function changes the state: the array \<^verbatim>\<open>sort\<close> works on is the copy made in
  the first line, never the mirror, and no record is written to. A second call with the
  same inputs, in the state the first call left, returns what the first call returned.
\<close>

theorem query_leaves_state:
  "snd (filterAndSortNotes env searchValue sortBy s) = s
   \<and> snd (filterAndSortTools env searchValue sortBy s) = s
   \<and> fst (filterAndSortNotes env searchValue sortBy
            (snd (filterAndSortNotes env searchValue sortBy s))) =
       fst (filterAndSortNotes env searchValue sortBy s)
   \<and> fst (filterAndSortTools env searchValue sortBy
            (snd (filterAndSortTools env searchValue sortBy s))) =
       fst (filterAndSortTools env searchValue sortBy s)"
  by (simp add: filterAndSortNotes_state filterAndSortTools_state)

theorem query_leaves_state_witness:
  "snd (filterAndSortNotes example_platform ''a'' ''title-asc'' library_state) = library_state
   \<and> snd (filterAndSortTools example_platform ''a'' ''name-desc'' library_state) = library_state"
  using query_leaves_state [of example_platform "''a''" "''title-asc''" library_state]
    query_leaves_state [of example_platform "''a''" "''name-desc''" library_state]
  by blast

text \<open>
  C7. With a search text whose lowercased form is not empty (for a JavaScript string,
  whenever the text itself is not empty), a record is in the result exactly when it is in
  the mirror, the tag filter keeps it, and the lowercased search text is a contiguous
  piece of its lowercased title or content (for a tool: name, description or url) or of
  one of its lowercased tags. Two search texts with the same lowercased form give the
  same result.
\<close>

theorem search_matches_lowercased_text:
  "(toLowerCase env searchValue \<noteq> []
      \<and> fst (filterAndSortNotes env searchValue sortBy s) = Inr rs \<longrightarrow>
      (\<forall>n. n \<in> set rs \<longleftrightarrow>
            n \<in> set (state_notes s) \<and> tag_filter_keeps s n
            \<and> note_search_hit env (toLowerCase env searchValue) (heap s n)))
   \<and> (toLowerCase env searchValue \<noteq> []
      \<and> fst (filterAndSortTools env searchValue sortBy s) = Inr ts \<longrightarrow>
      (\<forall>t. t \<in> set ts \<longleftrightarrow>
            t \<in> set (state_tools s) \<and> tag_filter_keeps s t
            \<and> tool_search_hit env (toLowerCase env searchValue) (heap s t)))
   \<and> (toLowerCase env other = toLowerCase env searchValue \<longrightarrow>
      filterAndSortNotes env other sortBy s = filterAndSortNotes env searchValue sortBy s
      \<and> filterAndSortTools env other sortBy s = filterAndSortTools env searchValue sortBy s)"
proof (intro conjI impI allI)
  fix n
  assume a: "toLowerCase env searchValue \<noteq> []
      \<and> fst (filterAndSortNotes env searchValue sortBy s) = Inr rs"
  then obtain zs where z: "notes_sorted env searchValue sortBy s = Inr zs"
      and r: "rs = priority_first (pinned s) zs"
    using filterAndSortNotes_Inr by blast
  show "n \<in> set rs \<longleftrightarrow>
            n \<in> set (state_notes s) \<and> tag_filter_keeps s n
            \<and> note_search_hit env (toLowerCase env searchValue) (heap s n)"
    using notes_sorted_members [OF z, of n] a r by simp
next
  fix t
  assume a: "toLowerCase env searchValue \<noteq> []
      \<and> fst (filterAndSortTools env searchValue sortBy s) = Inr ts"
  then obtain zs where z: "tools_sorted env searchValue sortBy s = Inr zs"
      and r: "ts = priority_first (favorite s) zs"
    using filterAndSortTools_Inr by blast
  show "t \<in> set ts \<longleftrightarrow>
            t \<in> set (state_tools s) \<and> tag_filter_keeps s t
            \<and> tool_search_hit env (toLowerCase env searchValue) (heap s t)"
    using tools_sorted_members [OF z, of t] a r by simp
next
  assume "toLowerCase env other = toLowerCase env searchValue"
  then show "filterAndSortNotes env other sortBy s = filterAndSortNotes env searchValue sortBy s"
    by (simp add: filterAndSortNotes_def)
next
  assume "toLowerCase env other = toLowerCase env searchValue"
  then show "filterAndSortTools env other sortBy s = filterAndSortTools env searchValue sortBy s"
    by (simp add: filterAndSortTools_def)
qed

theorem search_matches_lowercased_text_witness:
  "toLowerCase example_platform ''ALPHA'' \<noteq> []
   \<and> toLowerCase example_platform ''alpha'' = toLowerCase example_platform ''ALPHA''
   \<and> fst (filterAndSortTools example_platform ''ALPHA'' ''name-asc'' library_state) = Inr [2]
   \<and> fst (filterAndSortNotes example_platform ''ALPHA'' ''title-asc'' library_state) = Inr [1]
   \<and> filterAndSortTools example_platform ''alpha'' ''name-asc'' library_state =
       filterAndSortTools example_platform ''ALPHA'' ''name-asc'' library_state
   \<and> tool_search_hit example_platform (toLowerCase example_platform ''ALPHA'') (heap library_state 2)
   \<and> \<not> tool_search_hit example_platform (toLowerCase example_platform ''ALPHA'') (heap library_state 3)
   \<and> note_search_hit example_platform (toLowerCase example_platform ''ALPHA'') (heap library_state 1)
   \<and> \<not> note_search_hit example_platform (toLowerCase example_platform ''ALPHA'') (heap library_state 0)"
proof -
  have q: "toLowerCase example_platform ''ALPHA'' \<noteq> []"
      "toLowerCase example_platform ''alpha'' = toLowerCase example_platform ''ALPHA''"
    by (simp_all add: example_platform_def ascii_lower_def)
  have a: "fst (filterAndSortTools example_platform ''ALPHA'' ''name-asc'' library_state) = Inr [2]"
    by (simp add: eval_defs)
  have b: "fst (filterAndSortNotes example_platform ''ALPHA'' ''title-asc'' library_state) = Inr [1]"
    by (simp add: eval_defs)
  have m: "2 \<in> set (state_tools library_state)" "3 \<in> set (state_tools library_state)"
      "0 \<in> set (state_notes library_state)" "1 \<in> set (state_notes library_state)"
      "tag_filter_keeps library_state 0" "tag_filter_keeps library_state 1"
      "tag_filter_keeps library_state 2" "tag_filter_keeps library_state 3"
    by (simp_all add: library_state_def tag_filter_keeps_def tag_callback_def)
  note tn = search_matches_lowercased_text [of example_platform "''ALPHA''" "''title-asc''"
      library_state "[1]" "[]" "''alpha''", THEN conjunct1, THEN mp, OF conjI [OF q(1) b]]
  note tt = search_matches_lowercased_text [of example_platform "''ALPHA''" "''name-asc''"
      library_state "[]" "[2]" "''alpha''", THEN conjunct2, THEN conjunct1, THEN mp,
      OF conjI [OF q(1) a]]
  note tc = search_matches_lowercased_text [of example_platform "''ALPHA''" "''name-asc''"
      library_state "[]" "[2]" "''alpha''", THEN conjunct2, THEN conjunct2, THEN mp,
      OF q(2), THEN conjunct2]
  have h2: "tool_search_hit example_platform (toLowerCase example_platform ''ALPHA'') (heap library_state 2)"
    using tt [THEN spec, of 2] m(1,7) by simp
  have h3: "\<not> tool_search_hit example_platform (toLowerCase example_platform ''ALPHA'') (heap library_state 3)"
    using tt [THEN spec, of 3] m(2,8) by simp
  have h1: "note_search_hit example_platform (toLowerCase example_platform ''ALPHA'') (heap library_state 1)"
    using tn [THEN spec, of 1] m(4,6) by simp
  have h0: "\<not> note_search_hit example_platform (toLowerCase example_platform ''ALPHA'') (heap library_state 0)"
    using tn [THEN spec, of 0] m(3,5) by simp
  from q a b tc h2 h3 h1 h0 show ?thesis by (intro conjI)
qed

lemma tag_filter_keeps_Some:
  assumes "activeTagFilter s = Some T" and "T \<noteq> []"
  shows "tag_filter_keeps s n \<longleftrightarrow> tags_includes (heap s n ''tags'') T = Inr True"
  using assms by (simp add: tag_filter_keeps_def tag_callback_def)

lemma tags_includes_has_tag:
  assumes "has_tag_sequence r"
  shows "tags_includes (r ''tags'') T = Inr True \<longleftrightarrow> has_tag r T"
  using assms
  by (auto simp: has_tag_sequence_def has_tag_def split: option.splits jsval.splits)

lemma has_tag_includes:
  assumes "has_tag r T"
  shows "tags_includes (r ''tags'') T = Inr True"
  using assms
  by (auto simp: has_tag_def split: option.splits jsval.splits)

text \<open>
  C6, as amended. Let the tag filter hold a tag \<open>T\<close> that is not the empty string, and
  let every record of the mirror have a tag sequence. When the function returns a result,
  every record of the result has \<open>T\<close> among its tags (an element equal to the string
  \<open>T\<close>), and every record of the mirror that has \<open>T\<close> among its tags and passes the search
  filter (there is no search text, or the text hits the record) is in the result.
\<close>

theorem tag_filter_sound_and_complete:
  "(activeTagFilter s = Some T \<and> T \<noteq> []
      \<and> (\<forall>n \<in> set (state_notes s). has_tag_sequence (heap s n))
      \<and> fst (filterAndSortNotes env searchValue sortBy s) = Inr rs \<longrightarrow>
      (\<forall>r \<in> set rs. has_tag (heap s r) T)
      \<and> (\<forall>n \<in> set (state_notes s).
            has_tag (heap s n) T
            \<and> (toLowerCase env searchValue = []
                \<or> note_search_hit env (toLowerCase env searchValue) (heap s n))
            \<longrightarrow> n \<in> set rs))
   \<and> (activeTagFilter s = Some T \<and> T \<noteq> []
      \<and> (\<forall>t \<in> set (state_tools s). has_tag_sequence (heap s t))
      \<and> fst (filterAndSortTools env searchValue sortBy s) = Inr ts \<longrightarrow>
      (\<forall>r \<in> set ts. has_tag (heap s r) T)
      \<and> (\<forall>t \<in> set (state_tools s).
            has_tag (heap s t) T
            \<and> (toLowerCase env searchValue = []
                \<or> tool_search_hit env (toLowerCase env searchValue) (heap s t))
            \<longrightarrow> t \<in> set ts))"
proof (intro conjI impI ballI)
  assume a: "activeTagFilter s = Some T \<and> T \<noteq> []
      \<and> (\<forall>n \<in> set (state_notes s). has_tag_sequence (heap s n))
      \<and> fst (filterAndSortNotes env searchValue sortBy s) = Inr rs"
  then obtain zs where z: "notes_sorted env searchValue sortBy s = Inr zs"
      and r: "rs = priority_first (pinned s) zs"
    using filterAndSortNotes_Inr by blast
  from a have k: "\<And>n. tag_filter_keeps s n \<longleftrightarrow> tags_includes (heap s n ''tags'') T = Inr True"
    using tag_filter_keeps_Some by blast
  {
    fix x assume "x \<in> set rs"
    then have "x \<in> set (state_notes s)" and "tags_includes (heap s x ''tags'') T = Inr True"
      using notes_sorted_members [OF z, of x] r k by simp_all
    then show "has_tag (heap s x) T"
      using a tags_includes_has_tag by blast
  }
  {
    fix n assume "n \<in> set (state_notes s)"
      and "has_tag (heap s n) T
            \<and> (toLowerCase env searchValue = []
                \<or> note_search_hit env (toLowerCase env searchValue) (heap s n))"
    then show "n \<in> set rs"
      using notes_sorted_members [OF z, of n] r k has_tag_includes by simp
  }
next
  assume a: "activeTagFilter s = Some T \<and> T \<noteq> []
      \<and> (\<forall>t \<in> set (state_tools s). has_tag_sequence (heap s t))
      \<and> fst (filterAndSortTools env searchValue sortBy s) = Inr ts"
  then obtain zs where z: "tools_sorted env searchValue sortBy s = Inr zs"
      and r: "ts = priority_first (favorite s) zs"
    using filterAndSortTools_Inr by blast
  from a have k: "\<And>n. tag_filter_keeps s n \<longleftrightarrow> tags_includes (heap s n ''tags'') T = Inr True"
    using tag_filter_keeps_Some by blast
  {
    fix x assume "x \<in> set ts"
    then have "x \<in> set (state_tools s)" and "tags_includes (heap s x ''tags'') T = Inr True"
      using tools_sorted_members [OF z, of x] r k by simp_all
    then show "has_tag (heap s x) T"
      using a tags_includes_has_tag by blast
  }
  {
    fix t assume "t \<in> set (state_tools s)"
      and "has_tag (heap s t) T
            \<and> (toLowerCase env searchValue = []
                \<or> tool_search_hit env (toLowerCase env searchValue) (heap s t))"
    then show "t \<in> set ts"
      using tools_sorted_members [OF z, of t] r k has_tag_includes by simp
  }
qed

theorem tag_filter_sound_and_complete_witness:
  "activeTagFilter work_filter_state = Some ''work''
   \<and> fst (filterAndSortNotes example_platform [] ''updated-desc'' work_filter_state) = Inr [1]
   \<and> fst (filterAndSortTools example_platform [] ''updated-desc'' work_filter_state) = Inr [3]
   \<and> has_tag (heap work_filter_state 1) ''work''
   \<and> has_tag (heap work_filter_state 3) ''work''
   \<and> \<not> has_tag (heap work_filter_state 0) ''work''
   \<and> \<not> has_tag (heap work_filter_state 2) ''work''"
proof -
  have f: "activeTagFilter work_filter_state = Some ''work''" "''work'' \<noteq> []"
    by (simp_all add: work_filter_state_def)
  have sn: "\<forall>n \<in> set (state_notes work_filter_state). has_tag_sequence (heap work_filter_state n)"
    by (simp add: work_filter_state_def library_state_def has_tag_sequence_def)
  have st: "\<forall>t \<in> set (state_tools work_filter_state). has_tag_sequence (heap work_filter_state t)"
    by (simp add: work_filter_state_def library_state_def has_tag_sequence_def)
  have a: "fst (filterAndSortNotes example_platform [] ''updated-desc'' work_filter_state) = Inr [1]"
    by (simp add: work_filter_state_def eval_defs)
  have b: "fst (filterAndSortTools example_platform [] ''updated-desc'' work_filter_state) = Inr [3]"
    by (simp add: work_filter_state_def eval_defs)
  have q: "toLowerCase example_platform [] = []"
    by (simp add: example_platform_def)
  have m: "0 \<in> set (state_notes work_filter_state)" "2 \<in> set (state_tools work_filter_state)"
    by (simp_all add: work_filter_state_def library_state_def)
  note tn = tag_filter_sound_and_complete [of work_filter_state "''work''" example_platform
      "[]" "''updated-desc''" "[1]" "[]", THEN conjunct1, THEN mp,
      OF conjI [OF f(1) conjI [OF f(2) conjI [OF sn a]]]]
  note tt = tag_filter_sound_and_complete [of work_filter_state "''work''" example_platform
      "[]" "''updated-desc''" "[]" "[3]", THEN conjunct2, THEN mp,
      OF conjI [OF f(1) conjI [OF f(2) conjI [OF st b]]]]
  have h1: "has_tag (heap work_filter_state 1) ''work''"
    using tn [THEN conjunct1] by simp
  have h3: "has_tag (heap work_filter_state 3) ''work''"
    using tt [THEN conjunct1] by simp
  have h0: "\<not> has_tag (heap work_filter_state 0) ''work''"
    using tn [THEN conjunct2, THEN bspec, OF m(1)] q by simp
  have h2: "\<not> has_tag (heap work_filter_state 2) ''work''"
    using tt [THEN conjunct2, THEN bspec, OF m(2)] q by simp
  from f(1) a b h1 h3 h0 h2 show ?thesis by (intro conjI)
qed

text \<open>
  C6 as stated fails for the empty string: \<^verbatim>\<open>if (state.activeTagFilter)\<close> takes it for no
  filter at all, and the result holds records that do not have the tag.
\<close>

theorem empty_tag_filter_is_ignored:
  "activeTagFilter empty_filter_state = Some []
   \<and> fst (filterAndSortNotes example_platform [] ''updated-desc'' empty_filter_state) = Inr [1, 0]
   \<and> heap empty_filter_state 0 ''tags'' = Some (JArr [JStr ''home''])
   \<and> \<not> has_tag (heap empty_filter_state 0) []
   \<and> fst (filterAndSortTools example_platform [] ''updated-desc'' empty_filter_state) = Inr [3, 2]
   \<and> heap empty_filter_state 2 ''tags'' = Some (JArr [])
   \<and> \<not> has_tag (heap empty_filter_state 2) []"
  by (simp add: empty_filter_state_def has_tag_def eval_defs)

subsection \<open>Rendering\<close>

text \<open>Rendering changes nothing of the state, and it returns on well-typed records.\<close>

lemma renderNotesList_frame: "renderNotesList env ui s = (r, s') \<Longrightarrow> s' = s"
  using filterAndSortNotes_state [of env "notes_search ui" "notes_sort ui" s]
  by (auto simp: renderNotesList_def split: prod.splits sum.splits if_splits)

lemma renderToolsGrid_frame: "renderToolsGrid env ui s = (r, s') \<Longrightarrow> s' = s"
  using filterAndSortTools_state [of env "tools_search ui" "tools_sort ui" s]
  by (auto simp: renderToolsGrid_def split: prod.splits sum.splits if_splits)

lemma renderNotesList_state [simp]: "snd (renderNotesList env ui s) = s"
  by (cases "renderNotesList env ui s") (auto dest: renderNotesList_frame)

lemma renderToolsGrid_state [simp]: "snd (renderToolsGrid env ui s) = s"
  by (cases "renderToolsGrid env ui s") (auto dest: renderToolsGrid_frame)

lemma mapE_returns:
  assumes "\<forall>x \<in> set xs. \<exists>y. f x = Inr y"
  shows "\<exists>ys. mapE f xs = Inr ys"
  using assms by (induction xs) (auto simp: bindE_def)

lemma note_item_returns: "well_typed_note r \<Longrightarrow> note_item r = Inr ()"
  by (auto simp: well_typed_note_def note_item_def bindE_def is_string_iff is_string_array_iff)

lemma tool_card_returns: "well_typed_tool r \<Longrightarrow> tool_card r = Inr ()"
  by (auto simp: well_typed_tool_def tool_card_def is_string_array_iff)

lemma renderNotesList_returns:
  assumes "\<forall>n \<in> set (state_notes s). well_typed_note (heap s n)"
  shows "fst (renderNotesList env ui s) = Inr ()"
proof -
  from filterAndSortNotes_returns [OF assms] obtain rs where
    rs: "fst (filterAndSortNotes env (notes_search ui) (notes_sort ui) s) = Inr rs" by blast
  from filterAndSortNotes_Inr [OF rs] obtain zs where
    zs: "notes_sorted env (notes_search ui) (notes_sort ui) s = Inr zs"
    and r: "rs = priority_first (pinned s) zs" by blast
  have sub: "set rs \<subseteq> set (state_notes s)"
    using notes_sorted_members [OF zs] r by auto
  have e: "filterAndSortNotes env (notes_search ui) (notes_sort ui) s = (Inr rs, s)"
    using rs filterAndSortNotes_state [of env "notes_search ui" "notes_sort ui" s]
    by (cases "filterAndSortNotes env (notes_search ui) (notes_sort ui) s") simp
  have "\<forall>n \<in> set rs. \<exists>y. note_item (heap s n) = Inr y"
    using sub assms note_item_returns by blast
  from mapE_returns [OF this] obtain items where "mapE (\<lambda>n. note_item (heap s n)) rs = Inr items"
    by blast
  then show ?thesis by (simp add: renderNotesList_def e)
qed

lemma renderToolsGrid_returns:
  assumes "\<forall>t \<in> set (state_tools s). well_typed_tool (heap s t)"
  shows "fst (renderToolsGrid env ui s) = Inr ()"
proof -
  from filterAndSortTools_returns [OF assms] obtain rs where
    rs: "fst (filterAndSortTools env (tools_search ui) (tools_sort ui) s) = Inr rs" by blast
  from filterAndSortTools_Inr [OF rs] obtain zs where
    zs: "tools_sorted env (tools_search ui) (tools_sort ui) s = Inr zs"
    and r: "rs = priority_first (favorite s) zs" by blast
  have sub: "set rs \<subseteq> set (state_tools s)"
    using tools_sorted_members [OF zs] r by auto
  have e: "filterAndSortTools env (tools_search ui) (tools_sort ui) s = (Inr rs, s)"
    using rs filterAndSortTools_state [of env "tools_search ui" "tools_sort ui" s]
    by (cases "filterAndSortTools env (tools_search ui) (tools_sort ui) s") simp
  have "\<forall>t \<in> set rs. \<exists>y. tool_card (heap s t) = Inr y"
    using sub assms tool_card_returns by blast
  from mapE_returns [OF this] obtain cards where "mapE (\<lambda>t. tool_card (heap s t)) rs = Inr cards"
    by blast
  then show ?thesis by (simp add: renderToolsGrid_def e)
qed

text \<open>The definitions that evaluate the operations on the concrete inputs.\<close>

lemmas run_defs = example_state_def example_page_def renderNotesList_def renderToolsGrid_def
  note_item_def tool_card_def set_updatedAt_def assign_record_def object_assign_def
  loses_prototype_def putInStore_def deleteFromStore_def next_request_def strict_eq_def
  same_id_def upsert_ref_def has_id_def

subsection \<open>Saving a record\<close>








subsection \<open>Importing a document\<close>

lemma assign_record_frame [simp]:
  "state_notes (assign_record r item s) = state_notes s"
  "state_tools (assign_record r item s) = state_tools s"
  "db (assign_record r item s) = db s"
  "next_ref (assign_record r item s) = next_ref s"
  "faults (assign_record r item s) = faults s"
  "mirror st (assign_record r item s) = mirror st s"
  by (cases st; simp add: assign_record_def)+


lemma merge_records_append:
  "merge_records st (xs @ ys) s =
     (case merge_records st xs s of
        (Inl e, s1) \<Rightarrow> (Inl e, s1)
      | (Inr u, s1) \<Rightarrow> merge_records st ys s1)"
  by (induction xs arbitrary: s)
     (auto simp: Let_def split: option.splits prod.splits sum.splits)

lemma merge_one_failed:
  assumes "isl (fst (merge_records st [item] s))"
  shows "state_notes (snd (merge_records st [item] s)) = state_notes s
       \<and> state_tools (snd (merge_records st [item] s)) = state_tools s
       \<and> db (snd (merge_records st [item] s)) = db s
       \<and> next_ref (snd (merge_records st [item] s)) = next_ref s"
  using assms
  by (auto simp: Let_def split: option.splits prod.splits sum.splits dest!: putInStore_fails)

lemma merge_records_stops:
  assumes "\<not> isl (fst (merge_records st pre s))"
      and "isl (fst (merge_records st [item] (snd (merge_records st pre s))))"
  shows "merge_records st (pre @ item # post) s =
         merge_records st [item] (snd (merge_records st pre s))"
proof -
  obtain u s1 where p: "merge_records st pre s = (Inr u, s1)"
    using assms(1) by (cases "merge_records st pre s"; cases "fst (merge_records st pre s)") auto
  obtain e s2 where q: "merge_records st [item] s1 = (Inl e, s2)"
    using assms(2) p
    by (cases "merge_records st [item] s1"; cases "fst (merge_records st [item] s1)") auto
  have "merge_records st ([item] @ post) s1 = (Inl e, s2)"
    by (subst merge_records_append) (simp add: q del: merge_records.simps)
  then have "merge_records st (pre @ item # post) s = (Inl e, s2)"
    by (subst merge_records_append) (simp add: p del: merge_records.simps)
  then show ?thesis using p q by simp
qed

lemma putInStore_faults:
  assumes "putInStore st item s = (Inr u, s')"
  shows "faults s' = drop 1 (faults s) \<and> True \<notin> set (take 1 (faults s))"
  using assms
  by (auto simp: putInStore_def next_request_def
           split: option.splits if_splits list.splits bool.splits)

lemma push_record_faults [simp]: "faults (push_record st item s) = faults s"
  by (cases st) simp_all

lemma merge_records_requests:
  assumes "merge_records st xs s = (Inr u, s')"
  shows "faults s' = drop (length xs) (faults s) \<and> True \<notin> set (take (length xs) (faults s))"
  using assms
proof (induction xs arbitrary: s)
  case Nil
  then show ?case by simp
next
  case (Cons item rest)
  show ?case
  proof (cases "List.find (\<lambda>n. strict_eq (heap s n ''id'') (item ''id'')) (mirror st s)")
    case None
    then obtain s2 where a: "putInStore st item s = (Inr (), s2)"
        and b: "merge_records st rest (push_record st item s2) = (Inr u, s')"
      using Cons.prems by (auto split: prod.splits sum.splits)
    from putInStore_faults [OF a] Cons.IH [OF b] show ?thesis
      by (cases "faults s") auto
  next
    case (Some existing)
    define s1 where "s1 = assign_record existing item s"
    from Some obtain s2 where a: "putInStore st (heap s1 existing) s1 = (Inr (), s2)"
        and b: "merge_records st rest s2 = (Inr u, s')"
      using Cons.prems by (auto simp: Let_def s1_def split: prod.splits sum.splits)
    have "faults s1 = faults s" by (simp add: s1_def)
    with putInStore_faults [OF a] Cons.IH [OF b] show ?thesis
      by (cases "faults s") auto
  qed
qed

lemma mirror_push_other: "st' \<noteq> st \<Longrightarrow> mirror st' (push_record st item s) = mirror st' s"
  by (cases st; cases st') simp_all

lemma mirror_putInStore:
  "mirror st' (snd (putInStore st item s)) = mirror st' s"
  by (cases st') (auto simp: putInStore_def next_request_def split: option.splits list.splits bool.splits)

lemma mirror_heap_update [simp]: "mirror st (s\<lparr>heap := h\<rparr>) = mirror st s"
  by (cases st) simp_all

lemma merge_records_other_mirror:
  "st' \<noteq> st \<Longrightarrow> mirror st' (snd (merge_records st xs s)) = mirror st' s"
proof (induction xs arbitrary: s)
  case Nil
  then show ?case by simp
next
  case (Cons item rest)
  show ?case
  proof (cases "List.find (\<lambda>n. strict_eq (heap s n ''id'') (item ''id'')) (mirror st s)")
    case None
    show ?thesis
    proof (cases "putInStore st item s")
      case (Pair r s2)
      then have m: "mirror st' s2 = mirror st' s"
        using mirror_putInStore [of st' st item s] by simp
      show ?thesis
        using None Pair m Cons.IH [OF Cons.prems, of "push_record st item s2"]
          mirror_push_other [OF Cons.prems, of item s2]
        by (cases r) auto
    qed
  next
    case (Some existing)
    define s1 where "s1 = assign_record existing item s"
    show ?thesis
    proof (cases "putInStore st (heap s1 existing) s1")
      case (Pair r s2)
      then have m: "mirror st' s2 = mirror st' s"
        using mirror_putInStore [of st' st "heap s1 existing" s1] by (simp add: s1_def)
      show ?thesis
        using Some Pair m Cons.IH [OF Cons.prems, of s2]
        by (cases r) (auto simp: Let_def s1_def)
    qed
  qed
qed

lemma handleImportFile_notes_failed:
  assumes "snap_notes d = Some (pre @ item # post)" and "snap_tools d = Some ts"
      and "\<not> isl (fst (merge_records NotesStore pre s))"
      and "isl (fst (merge_records NotesStore [item] (snd (merge_records NotesStore pre s))))"
  shows "fst (handleImportFile env ui d s) = ImportFailed"
    and "snd (handleImportFile env ui d s) =
           snd (merge_records NotesStore [item] (snd (merge_records NotesStore pre s)))"
proof -
  let ?s1 = "snd (merge_records NotesStore pre s)"
  have m: "merge_records NotesStore (pre @ item # post) s = merge_records NotesStore [item] ?s1"
    using merge_records_stops [OF assms(3,4)] .
  obtain e s2 where q: "merge_records NotesStore [item] ?s1 = (Inl e, s2)"
    using assms(4)
    by (cases "merge_records NotesStore [item] ?s1";
        cases "fst (merge_records NotesStore [item] ?s1)") auto
  show "fst (handleImportFile env ui d s) = ImportFailed"
    using assms(1,2) m q by (simp add: handleImportFile_def del: merge_records.simps)
  show "snd (handleImportFile env ui d s) = snd (merge_records NotesStore [item] ?s1)"
    using assms(1,2) m q by (simp add: handleImportFile_def del: merge_records.simps)
qed

lemma handleImportFile_tools_failed:
  assumes "snap_notes d = Some ns" and "snap_tools d = Some (pre @ item # post)"
      and "\<not> isl (fst (merge_records NotesStore ns s))"
      and "\<not> isl (fst (merge_records ToolsStore pre (snd (merge_records NotesStore ns s))))"
      and "isl (fst (merge_records ToolsStore [item]
                  (snd (merge_records ToolsStore pre (snd (merge_records NotesStore ns s))))))"
  shows "fst (handleImportFile env ui d s) = ImportFailed"
    and "snd (handleImportFile env ui d s) =
           snd (merge_records ToolsStore [item]
                 (snd (merge_records ToolsStore pre (snd (merge_records NotesStore ns s)))))"
proof -
  obtain u s1 where p: "merge_records NotesStore ns s = (Inr u, s1)"
    using assms(3)
    by (cases "merge_records NotesStore ns s"; cases "fst (merge_records NotesStore ns s)") auto
  then have s1: "snd (merge_records NotesStore ns s) = s1" by simp
  have m: "merge_records ToolsStore (pre @ item # post) s1 =
           merge_records ToolsStore [item] (snd (merge_records ToolsStore pre s1))"
    using merge_records_stops [of ToolsStore pre s1 item post] assms(4,5) s1 by simp
  obtain e s3 where q: "merge_records ToolsStore [item] (snd (merge_records ToolsStore pre s1)) = (Inl e, s3)"
    using assms(5) s1
    by (cases "merge_records ToolsStore [item] (snd (merge_records ToolsStore pre s1))";
        cases "fst (merge_records ToolsStore [item] (snd (merge_records ToolsStore pre s1)))") auto
  show "fst (handleImportFile env ui d s) = ImportFailed"
    using assms(1,2) p m q by (simp add: handleImportFile_def del: merge_records.simps)
  show "snd (handleImportFile env ui d s) =
          snd (merge_records ToolsStore [item]
                (snd (merge_records ToolsStore pre (snd (merge_records NotesStore ns s)))))"
    using assms(1,2) p m q by (simp add: handleImportFile_def del: merge_records.simps)
qed

lemma handleImportFile_successful:
  assumes "fst (handleImportFile env ui d s) = ImportSuccessful n m"
  shows "\<exists>ns ts. snap_notes d = Some ns \<and> snap_tools d = Some ts
           \<and> n = length ns \<and> m = length ts
           \<and> \<not> isl (fst (merge_records NotesStore ns s))
           \<and> \<not> isl (fst (merge_records ToolsStore ts (snd (merge_records NotesStore ns s))))
           \<and> snd (handleImportFile env ui d s) =
               snd (merge_records ToolsStore ts (snd (merge_records NotesStore ns s)))"
  using assms
  by (auto simp: handleImportFile_def split: option.splits prod.splits sum.splits
           dest!: renderNotesList_frame renderToolsGrid_frame)

lemma handleImportFile_requests:
  assumes "fst (handleImportFile env ui d s) = ImportSuccessful n m"
  shows "faults (snd (handleImportFile env ui d s)) = drop (n + m) (faults s)
       \<and> True \<notin> set (take (n + m) (faults s))"
proof -
  from handleImportFile_successful [OF assms] obtain ns ts where
      n: "n = length ns" and m: "m = length ts"
      and a: "\<not> isl (fst (merge_records NotesStore ns s))"
      and b: "\<not> isl (fst (merge_records ToolsStore ts (snd (merge_records NotesStore ns s))))"
      and c: "snd (handleImportFile env ui d s) =
               snd (merge_records ToolsStore ts (snd (merge_records NotesStore ns s)))"
    by blast
  obtain u s1 where p: "merge_records NotesStore ns s = (Inr u, s1)"
    using a
    by (cases "merge_records NotesStore ns s"; cases "fst (merge_records NotesStore ns s)") auto
  then have s1: "snd (merge_records NotesStore ns s) = s1" by simp
  obtain v s2 where q: "merge_records ToolsStore ts s1 = (Inr v, s2)"
    using b s1
    by (cases "merge_records ToolsStore ts s1"; cases "fst (merge_records ToolsStore ts s1)") auto
  from merge_records_requests [OF p] merge_records_requests [OF q]
  have f: "faults s2 = drop (m + n) (faults s)"
    and t1: "True \<notin> set (take n (faults s))"
    and t2: "True \<notin> set (take m (drop n (faults s)))"
    by (simp_all add: n m)
  have "take (n + m) (faults s) = take n (faults s) @ take m (drop n (faults s))"
    by (simp add: take_add)
  with f t1 t2 c s1 q show ?thesis by (simp add: add.commute)
qed

text \<open>
  C2, as amended. When the store write of a record fails during an import, the import
  stops there and reports a failure, without counts: the state is the one in which that
  write failed, so the mirrors' record lists and the store are as the records before it
  left them, and no later record of either collection is processed. A success is reported
  only when no write failed; the counts are then the numbers of candidate records of the
  two sequences, and that many store writes were made, none of which failed.
\<close>

theorem import_stops_at_failed_write:
  "(snap_notes d = Some (pre @ item # post) \<and> snap_tools d = Some ts
      \<and> \<not> isl (fst (merge_records NotesStore pre s))
      \<and> isl (fst (merge_records NotesStore [item] (snd (merge_records NotesStore pre s))))
    \<longrightarrow> fst (handleImportFile env ui d s) = ImportFailed
      \<and> snd (handleImportFile env ui d s) =
          snd (merge_records NotesStore [item] (snd (merge_records NotesStore pre s)))
      \<and> state_notes (snd (handleImportFile env ui d s)) =
          state_notes (snd (merge_records NotesStore pre s))
      \<and> state_tools (snd (handleImportFile env ui d s)) = state_tools s
      \<and> db (snd (handleImportFile env ui d s)) = db (snd (merge_records NotesStore pre s)))
   \<and> (snap_notes d = Some ns \<and> snap_tools d = Some (pre @ item # post)
      \<and> \<not> isl (fst (merge_records NotesStore ns s))
      \<and> \<not> isl (fst (merge_records ToolsStore pre (snd (merge_records NotesStore ns s))))
      \<and> isl (fst (merge_records ToolsStore [item]
                    (snd (merge_records ToolsStore pre (snd (merge_records NotesStore ns s))))))
    \<longrightarrow> fst (handleImportFile env ui d s) = ImportFailed
      \<and> snd (handleImportFile env ui d s) =
          snd (merge_records ToolsStore [item]
                (snd (merge_records ToolsStore pre (snd (merge_records NotesStore ns s)))))
      \<and> state_notes (snd (handleImportFile env ui d s)) =
          state_notes (snd (merge_records NotesStore ns s))
      \<and> state_tools (snd (handleImportFile env ui d s)) =
          state_tools (snd (merge_records ToolsStore pre (snd (merge_records NotesStore ns s))))
      \<and> db (snd (handleImportFile env ui d s)) =
          db (snd (merge_records ToolsStore pre (snd (merge_records NotesStore ns s)))))
   \<and> (fst (handleImportFile env ui d s) = ImportSuccessful n m
    \<longrightarrow> snap_notes d \<noteq> None \<and> snap_tools d \<noteq> None
      \<and> n = length (the (snap_notes d)) \<and> m = length (the (snap_tools d))
      \<and> faults (snd (handleImportFile env ui d s)) = drop (n + m) (faults s)
      \<and> True \<notin> set (take (n + m) (faults s)))"
proof (intro conjI impI)
  assume a: "snap_notes d = Some (pre @ item # post) \<and> snap_tools d = Some ts
      \<and> \<not> isl (fst (merge_records NotesStore pre s))
      \<and> isl (fst (merge_records NotesStore [item] (snd (merge_records NotesStore pre s))))"
  let ?s1 = "snd (merge_records NotesStore pre s)"
  from a have h1: "snap_notes d = Some (pre @ item # post)" and h2: "snap_tools d = Some ts"
    and h3: "\<not> isl (fst (merge_records NotesStore pre s))"
    and f: "isl (fst (merge_records NotesStore [item] ?s1))"
    by blast+
  show r: "fst (handleImportFile env ui d s) = ImportFailed"
    using handleImportFile_notes_failed(1) [OF h1 h2 h3 f] .
  show e: "snd (handleImportFile env ui d s) = snd (merge_records NotesStore [item] ?s1)"
    using handleImportFile_notes_failed(2) [OF h1 h2 h3 f] .
  show "state_notes (snd (handleImportFile env ui d s)) = state_notes ?s1"
    using e merge_one_failed [OF f] by (simp del: merge_records.simps)
  show "db (snd (handleImportFile env ui d s)) = db ?s1"
    using e merge_one_failed [OF f] by (simp del: merge_records.simps)
  show "state_tools (snd (handleImportFile env ui d s)) = state_tools s"
    using e merge_one_failed [OF f]
      merge_records_other_mirror [of ToolsStore NotesStore pre s]
    by (simp del: merge_records.simps)
next
  assume a: "snap_notes d = Some ns \<and> snap_tools d = Some (pre @ item # post)
      \<and> \<not> isl (fst (merge_records NotesStore ns s))
      \<and> \<not> isl (fst (merge_records ToolsStore pre (snd (merge_records NotesStore ns s))))
      \<and> isl (fst (merge_records ToolsStore [item]
                    (snd (merge_records ToolsStore pre (snd (merge_records NotesStore ns s))))))"
  let ?s1 = "snd (merge_records NotesStore ns s)"
  let ?s2 = "snd (merge_records ToolsStore pre ?s1)"
  from a have h1: "snap_notes d = Some ns" and h2: "snap_tools d = Some (pre @ item # post)"
    and h3: "\<not> isl (fst (merge_records NotesStore ns s))"
    and h4: "\<not> isl (fst (merge_records ToolsStore pre ?s1))"
    and f: "isl (fst (merge_records ToolsStore [item] ?s2))"
    by blast+
  show "fst (handleImportFile env ui d s) = ImportFailed"
    using handleImportFile_tools_failed(1) [OF h1 h2 h3 h4 f] .
  show e: "snd (handleImportFile env ui d s) = snd (merge_records ToolsStore [item] ?s2)"
    using handleImportFile_tools_failed(2) [OF h1 h2 h3 h4 f] .
  show "state_tools (snd (handleImportFile env ui d s)) = state_tools ?s2"
    using e merge_one_failed [OF f] by (simp del: merge_records.simps)
  show "db (snd (handleImportFile env ui d s)) = db ?s2"
    using e merge_one_failed [OF f] by (simp del: merge_records.simps)
  show "state_notes (snd (handleImportFile env ui d s)) = state_notes ?s1"
    using e merge_one_failed [OF f]
      merge_records_other_mirror [of NotesStore ToolsStore pre ?s1]
    by (simp del: merge_records.simps)
next
  assume a: "fst (handleImportFile env ui d s) = ImportSuccessful n m"
  from handleImportFile_successful [OF a]
  show "snap_notes d \<noteq> None" and "snap_tools d \<noteq> None"
    and "n = length (the (snap_notes d))" and "m = length (the (snap_tools d))"
    by auto
  from handleImportFile_requests [OF a]
  show "faults (snd (handleImportFile env ui d s)) = drop (n + m) (faults s)"
    and "True \<notin> set (take (n + m) (faults s))"
    by simp_all
qed

theorem import_stops_at_failed_write_witness:
  "fst (handleImportFile example_platform example_page new_records failing_state) = ImportFailed
   \<and> state_notes (snd (handleImportFile example_platform example_page new_records failing_state)) = state_notes failing_state
   \<and> state_tools (snd (handleImportFile example_platform example_page new_records failing_state)) = state_tools failing_state
   \<and> db (snd (handleImportFile example_platform example_page new_records failing_state)) = db failing_state
   \<and> fst (handleImportFile example_platform example_page new_records late_failing_state) = ImportFailed
   \<and> state_notes (snd (handleImportFile example_platform example_page new_records late_failing_state)) =
       state_notes (snd (merge_records NotesStore (the (snap_notes new_records)) late_failing_state))
   \<and> state_tools (snd (handleImportFile example_platform example_page new_records late_failing_state)) =
       state_tools late_failing_state
   \<and> fst (handleImportFile example_platform example_page new_records example_state) = ImportSuccessful 2 1
   \<and> 2 = length (the (snap_notes new_records)) \<and> 1 = length (the (snap_tools new_records))
   \<and> faults (snd (handleImportFile example_platform example_page new_records example_state)) = drop (2 + 1) (faults example_state)"
proof -
  let ?c1 = "[''id'' \<mapsto> JStr ''c1'', ''title'' \<mapsto> JStr ''First'',
              ''content'' \<mapsto> JStr [], ''tags'' \<mapsto> JArr []]"
  let ?c2 = "[''id'' \<mapsto> JStr ''c2'', ''title'' \<mapsto> JStr ''Second'',
              ''content'' \<mapsto> JStr [], ''tags'' \<mapsto> JArr []]"
  let ?c3 = "[''id'' \<mapsto> JStr ''c3'', ''name'' \<mapsto> JStr ''Third'', ''tags'' \<mapsto> JArr []]"
  have n: "snap_notes new_records = Some ([] @ ?c1 # [?c2])"
      "snap_notes new_records = Some [?c1, ?c2]"
      "snap_tools new_records = Some ([] @ ?c3 # [])"
      "snap_tools new_records = Some [?c3]"
    by (simp_all add: new_records_def)
  have a1: "\<not> isl (fst (merge_records NotesStore [] failing_state))" by simp
  have a2: "isl (fst (merge_records NotesStore [?c1]
                (snd (merge_records NotesStore [] failing_state))))"
    by (simp add: failing_state_def example_state_def putInStore_def next_request_def
          strict_eq_def Let_def)
  have b1: "\<not> isl (fst (merge_records NotesStore [?c1, ?c2] late_failing_state))"
    by (simp add: late_failing_state_def example_state_def putInStore_def next_request_def
          strict_eq_def Let_def)
  have b2: "\<not> isl (fst (merge_records ToolsStore []
                (snd (merge_records NotesStore [?c1, ?c2] late_failing_state))))"
    by simp
  have b3: "isl (fst (merge_records ToolsStore [?c3]
                (snd (merge_records ToolsStore []
                  (snd (merge_records NotesStore [?c1, ?c2] late_failing_state))))))"
    by (simp add: late_failing_state_def example_state_def putInStore_def next_request_def
          strict_eq_def Let_def)
  have c: "fst (handleImportFile example_platform example_page new_records example_state) = ImportSuccessful 2 1"
    by (simp add: new_records_def handleImportFile_def run_defs eval_defs)
  have t: "state_tools (snd (merge_records ToolsStore []
                (snd (merge_records NotesStore [?c1, ?c2] late_failing_state)))) =
           state_tools late_failing_state"
    by (simp add: late_failing_state_def example_state_def putInStore_def next_request_def
          strict_eq_def Let_def)
  note inst1 = import_stops_at_failed_write [where d = new_records and s = failing_state
        and pre = "[]" and item = ?c1 and post = "[?c2]" and ts = "[?c3]"
        and ns = "[]" and n = 0 and m = 0]
  note inst2 = import_stops_at_failed_write [where d = new_records and s = late_failing_state
        and pre = "[]" and item = ?c3 and post = "[]" and ns = "[?c1, ?c2]"
        and ts = "[]" and n = 0 and m = 0]
  note inst3 = import_stops_at_failed_write [where d = new_records and s = example_state
        and pre = "[]" and item = ?c1 and post = "[]" and ns = "[]"
        and ts = "[]" and n = 2 and m = 1]
  have r1: "fst (handleImportFile example_platform example_page new_records failing_state) = ImportFailed
     \<and> state_notes (snd (handleImportFile example_platform example_page new_records failing_state)) =
         state_notes (snd (merge_records NotesStore [] failing_state))
     \<and> state_tools (snd (handleImportFile example_platform example_page new_records failing_state)) = state_tools failing_state
     \<and> db (snd (handleImportFile example_platform example_page new_records failing_state)) =
         db (snd (merge_records NotesStore [] failing_state))"
    using inst1 n(1,4) a1 a2 by blast
  have w1: "fst (handleImportFile example_platform example_page new_records failing_state) = ImportFailed
     \<and> state_notes (snd (handleImportFile example_platform example_page new_records failing_state)) = state_notes failing_state
     \<and> state_tools (snd (handleImportFile example_platform example_page new_records failing_state)) = state_tools failing_state
     \<and> db (snd (handleImportFile example_platform example_page new_records failing_state)) = db failing_state"
    using r1 by simp
  have r2: "fst (handleImportFile example_platform example_page new_records late_failing_state) = ImportFailed
     \<and> state_notes (snd (handleImportFile example_platform example_page new_records late_failing_state)) =
         state_notes (snd (merge_records NotesStore [?c1, ?c2] late_failing_state))
     \<and> state_tools (snd (handleImportFile example_platform example_page new_records late_failing_state)) =
         state_tools (snd (merge_records ToolsStore []
                (snd (merge_records NotesStore [?c1, ?c2] late_failing_state))))"
    using inst2 n(2,3) b1 b2 b3 by blast
  have w2: "fst (handleImportFile example_platform example_page new_records late_failing_state) = ImportFailed
     \<and> state_notes (snd (handleImportFile example_platform example_page new_records late_failing_state)) =
         state_notes (snd (merge_records NotesStore (the (snap_notes new_records)) late_failing_state))
     \<and> state_tools (snd (handleImportFile example_platform example_page new_records late_failing_state)) =
         state_tools late_failing_state"
    using r2 t n(2) by (simp del: merge_records.simps(2))
  have w3: "2 = length (the (snap_notes new_records)) \<and> 1 = length (the (snap_tools new_records))
     \<and> faults (snd (handleImportFile example_platform example_page new_records example_state)) = drop (2 + 1) (faults example_state)"
    using inst3 c by blast
  show ?thesis
    using w1 w2 w3 c by blast
qed

text \<open>
  C2 as stated fails: the first write of the import fails, no later request would fail,
  and still the second note is neither in the mirror nor in the store, and the message is
  the failure message, which has no counts.
\<close>

theorem import_abandons_later_records:
  "fst (handleImportFile example_platform example_page new_records failing_state) = ImportFailed
   \<and> state_notes (snd (handleImportFile example_platform example_page new_records failing_state)) = [0]
   \<and> state_tools (snd (handleImportFile example_platform example_page new_records failing_state)) = [1]
   \<and> db (snd (handleImportFile example_platform example_page new_records failing_state)) NotesStore (JStr ''c2'') = None
   \<and> db (snd (handleImportFile example_platform example_page new_records failing_state)) ToolsStore (JStr ''c3'') = None
   \<and> faults (snd (handleImportFile example_platform example_page new_records failing_state)) = []"
  by (simp add: new_records_def failing_state_def example_state_def handleImportFile_def
        putInStore_def next_request_def strict_eq_def Let_def)

subsection \<open>Merging by id\<close>




lemma wf_assign_record [simp]: "wf_state (assign_record r item s) = wf_state s"
  by (simp add: wf_state_def)















lemma handleImportFile_state:
  assumes "snap_notes d = Some ns" and "snap_tools d = Some ts"
  shows "snd (handleImportFile env ui d s) =
           (if isl (fst (merge_records NotesStore ns s)) then snd (merge_records NotesStore ns s)
            else snd (merge_records ToolsStore ts (snd (merge_records NotesStore ns s))))"
  using assms
  by (auto simp: handleImportFile_def split: prod.splits sum.splits
           dest!: renderNotesList_frame renderToolsGrid_frame)




subsection \<open>Ids that no record has\<close>

lemma find_None_absent:
  "(\<forall>x \<in> set xs. \<not> P x) \<Longrightarrow> List.find P xs = None"
  by (simp add: find_None_iff)

lemma deleteNote_absent:
  assumes "\<forall>n \<in> set (state_notes s). \<not> has_id (heap s) ident n"
      and "db s NotesStore (JStr ident) = None"
  shows "state_notes (snd (deleteNote env ui confirmed ident s)) = state_notes s"
    and "state_tools (snd (deleteNote env ui confirmed ident s)) = state_tools s"
    and "heap (snd (deleteNote env ui confirmed ident s)) = heap s"
    and "db (snd (deleteNote env ui confirmed ident s)) = db s"
    and "\<not> fst (next_request s) \<Longrightarrow> \<forall>n \<in> set (state_notes s). well_typed_note (heap s n) \<Longrightarrow>
         fst (deleteNote env ui confirmed ident s) = Inr ()"
proof -
  have f: "filter (\<lambda>n. \<not> has_id (heap s) ident n) (state_notes s) = state_notes s"
    using assms(1) by (simp add: filter_id_conv)
  have d: "(db s)(NotesStore := (db s NotesStore)(JStr ident := None)) = db s"
    using assms(2) by (auto simp: fun_upd_idem)
  show "state_notes (snd (deleteNote env ui confirmed ident s)) = state_notes s"
    using f by (auto simp: deleteNote_def deleteFromStore_def next_request_def Let_def
                  split: list.splits bool.splits option.splits)
  show "state_tools (snd (deleteNote env ui confirmed ident s)) = state_tools s"
    by (auto simp: deleteNote_def deleteFromStore_def next_request_def Let_def
                  split: list.splits bool.splits option.splits)
  show "heap (snd (deleteNote env ui confirmed ident s)) = heap s"
    by (auto simp: deleteNote_def deleteFromStore_def next_request_def Let_def
                  split: list.splits bool.splits option.splits)
  show "db (snd (deleteNote env ui confirmed ident s)) = db s"
    using d by (auto simp: deleteNote_def deleteFromStore_def next_request_def Let_def
                  split: list.splits bool.splits option.splits)
  show "fst (deleteNote env ui confirmed ident s) = Inr ()"
    if r: "\<not> fst (next_request s)" and t: "\<forall>n \<in> set (state_notes s). well_typed_note (heap s n)"
  proof (cases confirmed)
    case False
    then show ?thesis by (simp add: deleteNote_def)
  next
    case True
    obtain s1 where s1: "deleteFromStore NotesStore ident s = (Inr (), s1)"
        and h: "heap s1 = heap s" and m: "state_notes s1 = state_notes s"
      using r by (auto simp: deleteFromStore_def next_request_def
                       split: list.splits bool.splits)
    define s2 where "s2 = s1\<lparr>state_notes := filter (\<lambda>n. \<not> has_id (heap s1) ident n) (state_notes s1)\<rparr>"
    define s3 where "s3 = (case currentNote s2 of None \<Rightarrow> s2
        | Some c \<Rightarrow> if has_id (heap s2) ident c then s2\<lparr>currentNote := None\<rparr> else s2)"
    have "heap s3 = heap s" and "state_notes s3 = state_notes s"
      using h m f by (auto simp: s3_def s2_def split: option.splits)
    then have "\<forall>n \<in> set (state_notes s3). well_typed_note (heap s3 n)"
      using t by simp
    then have ok: "fst (renderNotesList env ui s3) = Inr ()"
      by (rule renderNotesList_returns)
    have "deleteNote env ui confirmed ident s = renderNotesList env ui s3"
      unfolding s3_def s2_def using True s1 by (simp add: deleteNote_def Let_def)
    with ok show ?thesis by simp
  qed
qed

lemma deleteTool_absent:
  assumes "\<forall>t \<in> set (state_tools s). \<not> has_id (heap s) ident t"
      and "db s ToolsStore (JStr ident) = None"
  shows "state_notes (snd (deleteTool env ui confirmed ident s)) = state_notes s"
    and "state_tools (snd (deleteTool env ui confirmed ident s)) = state_tools s"
    and "heap (snd (deleteTool env ui confirmed ident s)) = heap s"
    and "db (snd (deleteTool env ui confirmed ident s)) = db s"
    and "\<not> fst (next_request s) \<Longrightarrow> \<forall>t \<in> set (state_tools s). well_typed_tool (heap s t) \<Longrightarrow>
         fst (deleteTool env ui confirmed ident s) = Inr ()"
proof -
  have f: "filter (\<lambda>t. \<not> has_id (heap s) ident t) (state_tools s) = state_tools s"
    using assms(1) by (simp add: filter_id_conv)
  have d: "(db s)(ToolsStore := (db s ToolsStore)(JStr ident := None)) = db s"
    using assms(2) by (auto simp: fun_upd_idem)
  show "state_notes (snd (deleteTool env ui confirmed ident s)) = state_notes s"
    by (auto simp: deleteTool_def deleteFromStore_def next_request_def Let_def
                  split: list.splits bool.splits option.splits)
  show "state_tools (snd (deleteTool env ui confirmed ident s)) = state_tools s"
    using f by (auto simp: deleteTool_def deleteFromStore_def next_request_def Let_def
                  split: list.splits bool.splits option.splits)
  show "heap (snd (deleteTool env ui confirmed ident s)) = heap s"
    by (auto simp: deleteTool_def deleteFromStore_def next_request_def Let_def
                  split: list.splits bool.splits option.splits)
  show "db (snd (deleteTool env ui confirmed ident s)) = db s"
    using d by (auto simp: deleteTool_def deleteFromStore_def next_request_def Let_def
                  split: list.splits bool.splits option.splits)
  show "fst (deleteTool env ui confirmed ident s) = Inr ()"
    if r: "\<not> fst (next_request s)" and t: "\<forall>t \<in> set (state_tools s). well_typed_tool (heap s t)"
  proof (cases confirmed)
    case False
    then show ?thesis by (simp add: deleteTool_def)
  next
    case True
    obtain s1 where s1: "deleteFromStore ToolsStore ident s = (Inr (), s1)"
        and h: "heap s1 = heap s" and m: "state_tools s1 = state_tools s"
      using r by (auto simp: deleteFromStore_def next_request_def
                       split: list.splits bool.splits)
    define s2 where "s2 = s1\<lparr>state_tools := filter (\<lambda>t. \<not> has_id (heap s1) ident t) (state_tools s1)\<rparr>"
    have "heap s2 = heap s" and "state_tools s2 = state_tools s"
      using h m f by (auto simp: s2_def)
    then have "\<forall>t \<in> set (state_tools s2). well_typed_tool (heap s2 t)"
      using t by simp
    then have ok: "fst (renderToolsGrid env ui s2) = Inr ()"
      by (rule renderToolsGrid_returns)
    have "deleteTool env ui confirmed ident s = renderToolsGrid env ui s2"
      unfolding s2_def using True s1 by (simp add: deleteTool_def)
    with ok show ?thesis by simp
  qed
qed

lemma toggleFavorite_absent:
  assumes "\<forall>t \<in> set (state_tools s). \<not> has_id (heap s) ident t"
  shows "toggleFavorite env ui now ident s = (Inr (), s)"
  using find_None_absent [OF assms] by (simp add: toggleFavorite_def)

text \<open>
  C8, as amended. Let no record of the notes have the id: none in the mirror and none in
  the store. Then \<^verbatim>\<open>deleteNote\<close> leaves the mirrors, the records and the store as they are,
  whatever the user answers, whether or not the store request fails and whether or not
  the rendering of the list that ends it throws; that the id is absent is never a reason
  to fail, and the call returns without error when the store serves the request and the
  records of the mirror are well typed, so that rendering them cannot throw. The same
  holds for \<^verbatim>\<open>deleteTool\<close>. \<^verbatim>\<open>toggleFavorite\<close> with an id that no tool of the mirror has
  returns at once, without error, in the state it was called in.
\<close>

theorem absent_id_is_no_error:
  "((\<forall>n \<in> set (state_notes s). \<not> has_id (heap s) ident n)
      \<and> db s NotesStore (JStr ident) = None \<longrightarrow>
      state_notes (snd (deleteNote env ui confirmed ident s)) = state_notes s
      \<and> state_tools (snd (deleteNote env ui confirmed ident s)) = state_tools s
      \<and> heap (snd (deleteNote env ui confirmed ident s)) = heap s
      \<and> db (snd (deleteNote env ui confirmed ident s)) = db s
      \<and> (\<not> fst (next_request s) \<and> (\<forall>n \<in> set (state_notes s). well_typed_note (heap s n)) \<longrightarrow>
           fst (deleteNote env ui confirmed ident s) = Inr ()))
   \<and> ((\<forall>t \<in> set (state_tools s). \<not> has_id (heap s) ident t)
      \<and> db s ToolsStore (JStr ident) = None \<longrightarrow>
      state_notes (snd (deleteTool env ui confirmed ident s)) = state_notes s
      \<and> state_tools (snd (deleteTool env ui confirmed ident s)) = state_tools s
      \<and> heap (snd (deleteTool env ui confirmed ident s)) = heap s
      \<and> db (snd (deleteTool env ui confirmed ident s)) = db s
      \<and> (\<not> fst (next_request s) \<and> (\<forall>t \<in> set (state_tools s). well_typed_tool (heap s t)) \<longrightarrow>
           fst (deleteTool env ui confirmed ident s) = Inr ()))
   \<and> ((\<forall>t \<in> set (state_tools s). \<not> has_id (heap s) ident t) \<longrightarrow>
      toggleFavorite env ui now ident s = (Inr (), s))"
  using deleteNote_absent [of s ident env ui confirmed] deleteTool_absent [of s ident env ui confirmed]
    toggleFavorite_absent [of s ident env ui now]
  by blast

theorem absent_id_is_no_error_witness:
  "db example_state NotesStore (JStr ''zz'') = None
   \<and> \<not> fst (next_request example_state)
   \<and> well_typed_note (heap example_state 0)
   \<and> well_typed_tool (heap example_state 1)
   \<and> fst (deleteNote example_platform example_page True ''zz'' example_state) = Inr ()
   \<and> state_notes (snd (deleteNote example_platform example_page True ''zz'' example_state)) =
       state_notes example_state
   \<and> db (snd (deleteNote example_platform example_page True ''zz'' example_state)) =
       db example_state
   \<and> fst (deleteTool example_platform example_page True ''zz'' example_state) = Inr ()
   \<and> state_tools (snd (deleteTool example_platform example_page True ''zz'' example_state)) =
       state_tools example_state
   \<and> db (snd (deleteTool example_platform example_page True ''zz'' example_state)) =
       db example_state
   \<and> toggleFavorite example_platform example_page day2 ''zz'' example_state =
       (Inr (), example_state)"
proof -
  have n: "\<forall>n \<in> set (state_notes example_state). \<not> has_id (heap example_state) ''zz'' n"
    by (simp add: example_state_def has_id_def)
  have t: "\<forall>t \<in> set (state_tools example_state). \<not> has_id (heap example_state) ''zz'' t"
    by (simp add: example_state_def has_id_def)
  have d: "db example_state NotesStore (JStr ''zz'') = None"
      "db example_state ToolsStore (JStr ''zz'') = None"
    by (simp_all add: example_state_def)
  have r: "\<not> fst (next_request example_state)"
    by (simp add: example_state_def next_request_def)
  have wt: "well_typed_note (heap example_state 0)" "well_typed_tool (heap example_state 1)"
    by (simp_all add: example_state_def well_typed_note_def well_typed_tool_def)
  have wn: "\<forall>n \<in> set (state_notes example_state). well_typed_note (heap example_state n)"
    using wt(1) by (simp add: example_state_def)
  have wl: "\<forall>t \<in> set (state_tools example_state). well_typed_tool (heap example_state t)"
    using wt(2) by (simp add: example_state_def)
  note a = absent_id_is_no_error [of example_state "''zz''" example_platform example_page True day2]
  note a1 = a [THEN conjunct1, THEN mp, OF conjI [OF n d(1)]]
  note a2 = a [THEN conjunct2, THEN conjunct1, THEN mp, OF conjI [OF t d(2)]]
  note a3 = a [THEN conjunct2, THEN conjunct2, THEN mp, OF t]
  from a1 r wn have b1: "fst (deleteNote example_platform example_page True ''zz'' example_state) = Inr ()"
      "state_notes (snd (deleteNote example_platform example_page True ''zz'' example_state)) =
         state_notes example_state"
      "db (snd (deleteNote example_platform example_page True ''zz'' example_state)) = db example_state"
    by blast+
  from a2 r wl have b2: "fst (deleteTool example_platform example_page True ''zz'' example_state) = Inr ()"
      "state_tools (snd (deleteTool example_platform example_page True ''zz'' example_state)) =
         state_tools example_state"
      "db (snd (deleteTool example_platform example_page True ''zz'' example_state)) = db example_state"
    by blast+
  from d(1) r wt b1 b2 a3 show ?thesis by (intro conjI)
qed

text \<open>
  C8 as stated fails. \<open>thin_state\<close> is the state an import leaves; no note of it has the
  id, the store serves the request, and \<^verbatim>\<open>deleteNote\<close> is rejected all the same, by the
  \<^verbatim>\<open>TypeError\<close> of rendering the note that has no content; the mirror and the store are as
  before.
\<close>

theorem delete_of_absent_id_rejected_by_rendering:
  "handleImportFile example_platform example_page thin_import example_state =
     (ImportFailed, thin_state)
   \<and> state_notes thin_state = [0, 2]
   \<and> heap thin_state 0 ''id'' = Some (JStr ''a'')
   \<and> heap thin_state 2 ''id'' = Some (JStr ''c1'')
   \<and> heap thin_state 2 ''content'' = None
   \<and> db thin_state NotesStore (JStr ''zz'') = None
   \<and> \<not> fst (next_request thin_state)
   \<and> fst (deleteNote example_platform example_page True ''zz'' thin_state) = Inl TypeError
   \<and> state_notes (snd (deleteNote example_platform example_page True ''zz'' thin_state)) =
       state_notes thin_state
   \<and> db (snd (deleteNote example_platform example_page True ''zz'' thin_state)) = db thin_state"
  by (simp add: thin_state_def thin_import_def thin_note_def deleteNote_def handleImportFile_def
        run_defs eval_defs)

subsection \<open>The order of the two timestamps\<close>






lemma mirrors_ordered_cong:
  assumes "state_notes s' = state_notes s" and "state_tools s' = state_tools s"
      and "heap s' = heap s"
  shows "mirrors_ordered env s' = mirrors_ordered env s"
  using assms by (simp add: mirrors_ordered_def)












subsection \<open>Importing an export\<close>

lemma object_assign_self: "object_assign b r r = r"
  by (rule ext) (auto simp: object_assign_def split: option.splits)

lemma assign_record_self: "assign_record r (heap s r) s = s"
  by (auto simp: assign_record_def object_assign_self loses_prototype_def)

lemma find_own_id:
  assumes "distinct (map f rs)" and "r \<in> set rs" and "P (f r)"
  shows "List.find (\<lambda>n. P (f n) \<and> f n = f r) rs = Some r"
  using assms
  by (induction rs) auto

lemma find_by_id:
  assumes "id_unique h rs" and "r \<in> set rs"
  shows "List.find (\<lambda>n. strict_eq (h n ''id'') (h r ''id'')) rs = Some r"
  using find_own_id [of "\<lambda>r. h r ''id''" rs r is_primitive] assms
  by (simp add: id_unique_def strict_eq_def)

lemma putInStore_frame:
  "heap (snd (putInStore st item s)) = heap s"
  "state_notes (snd (putInStore st item s)) = state_notes s"
  "state_tools (snd (putInStore st item s)) = state_tools s"
  by (auto simp: putInStore_def next_request_def split: option.splits list.splits bool.splits)

lemma mirror_cong:
  "state_notes s' = state_notes s \<Longrightarrow> state_tools s' = state_tools s \<Longrightarrow>
   mirror st s' = mirror st s"
  by (cases st) simp_all

lemma merge_own_records:
  assumes "id_unique (heap s) (mirror st s)" and "set rs \<subseteq> set (mirror st s)"
  shows "heap (snd (merge_records st (map (heap s) rs) s)) = heap s
       \<and> state_notes (snd (merge_records st (map (heap s) rs) s)) = state_notes s
       \<and> state_tools (snd (merge_records st (map (heap s) rs) s)) = state_tools s"
  using assms
proof (induction rs arbitrary: s)
  case Nil
  then show ?case by simp
next
  case (Cons r rs)
  then have m: "r \<in> set (mirror st s)" and sub: "set rs \<subseteq> set (mirror st s)" by simp_all
  have f: "List.find (\<lambda>n. strict_eq (heap s n ''id'') (heap s r ''id'')) (mirror st s) = Some r"
    using find_by_id [OF Cons.prems(1) m] .
  have same: "assign_record r (heap s r) s = s"
    by (rule assign_record_self)
  show ?case
  proof (cases "putInStore st (heap s r) s")
    case (Pair res s2)
    have fr: "heap s2 = heap s" "state_notes s2 = state_notes s" "state_tools s2 = state_tools s"
      using putInStore_frame [of st "heap s r" s] Pair by simp_all
    show ?thesis
    proof (cases res)
      case (Inl e)
      then show ?thesis using f same Pair fr by (simp add: Let_def)
    next
      case (Inr u)
      have mr: "mirror st s2 = mirror st s" by (rule mirror_cong [OF fr(2,3)])
      have "heap (snd (merge_records st (map (heap s2) rs) s2)) = heap s2
          \<and> state_notes (snd (merge_records st (map (heap s2) rs) s2)) = state_notes s2
          \<and> state_tools (snd (merge_records st (map (heap s2) rs) s2)) = state_tools s2"
        using Cons.IH [of s2] Cons.prems(1) sub fr(1) mr by simp
      then show ?thesis using f same Pair Inr fr by (simp add: Let_def)
    qed
  qed
qed

lemma import_of_export:
  assumes "id_unique (heap s) (state_notes s)" and "id_unique (heap s) (state_tools s)"
  shows "state_notes (snd (handleImportFile env ui (exportData now s) s)) = state_notes s"
    and "state_tools (snd (handleImportFile env ui (exportData now s) s)) = state_tools s"
    and "heap (snd (handleImportFile env ui (exportData now s) s)) = heap s"
proof -
  let ?s1 = "snd (merge_records NotesStore (map (heap s) (state_notes s)) s)"
  have n: "heap ?s1 = heap s \<and> state_notes ?s1 = state_notes s \<and> state_tools ?s1 = state_tools s"
    using merge_own_records [of s NotesStore "state_notes s"] assms(1) by simp
  have "heap (snd (merge_records ToolsStore (map (heap ?s1) (state_tools ?s1)) ?s1)) = heap ?s1
      \<and> state_notes (snd (merge_records ToolsStore (map (heap ?s1) (state_tools ?s1)) ?s1)) = state_notes ?s1
      \<and> state_tools (snd (merge_records ToolsStore (map (heap ?s1) (state_tools ?s1)) ?s1)) = state_tools ?s1"
    using merge_own_records [of ?s1 ToolsStore "state_tools ?s1"] assms(2) n by simp
  then have t: "heap (snd (merge_records ToolsStore (map (heap s) (state_tools s)) ?s1)) = heap s
      \<and> state_notes (snd (merge_records ToolsStore (map (heap s) (state_tools s)) ?s1)) = state_notes s
      \<and> state_tools (snd (merge_records ToolsStore (map (heap s) (state_tools s)) ?s1)) = state_tools s"
    using n by simp
  have e: "snd (handleImportFile env ui (exportData now s) s) =
      (if isl (fst (merge_records NotesStore (map (heap s) (state_notes s)) s)) then ?s1
       else snd (merge_records ToolsStore (map (heap s) (state_tools s)) ?s1))"
    by (rule handleImportFile_state) (simp_all add: exportData_def)
  show "state_notes (snd (handleImportFile env ui (exportData now s) s)) = state_notes s"
    unfolding e using n t by simp
  show "state_tools (snd (handleImportFile env ui (exportData now s) s)) = state_tools s"
    unfolding e using n t by simp
  show "heap (snd (handleImportFile env ui (exportData now s) s)) = heap s"
    unfolding e using n t by simp
qed

text \<open>
  C10, as amended. If the records of each mirror have pairwise different ids that are
  primitive values, then importing the document \<^verbatim>\<open>exportData\<close> made of the state, into
  that same state, leaves both record lists and every record as they were, whether or
  not a store write fails on the way: each candidate finds the record it is a copy of,
  and overwriting a record with its own fields changes nothing.
\<close>

theorem import_of_own_export_keeps_mirrors:
  "id_unique (heap s) (state_notes s) \<and> id_unique (heap s) (state_tools s) \<longrightarrow>
     state_notes (snd (handleImportFile env ui (exportData now s) s)) = state_notes s
     \<and> state_tools (snd (handleImportFile env ui (exportData now s) s)) = state_tools s
     \<and> heap (snd (handleImportFile env ui (exportData now s) s)) = heap s"
  using import_of_export [of s env ui now] by blast

theorem import_of_own_export_keeps_mirrors_witness:
  "id_unique (heap library_state) (state_notes library_state)
   \<and> id_unique (heap library_state) (state_tools library_state)
   \<and> state_notes (snd (handleImportFile example_platform example_page (exportData day2 library_state) library_state)) =
       state_notes library_state
   \<and> state_tools (snd (handleImportFile example_platform example_page (exportData day2 library_state) library_state)) =
       state_tools library_state
   \<and> heap (snd (handleImportFile example_platform example_page (exportData day2 library_state) library_state)) =
       heap library_state"
proof -
  have a: "id_unique (heap library_state) (state_notes library_state)"
    by (simp add: id_unique_def library_state_def)
  have b: "id_unique (heap library_state) (state_tools library_state)"
    by (simp add: id_unique_def library_state_def)
  from import_of_own_export_keeps_mirrors [of library_state example_platform example_page day2,
      THEN mp, OF conjI [OF a b]] a b
  show ?thesis by (intro conjI) (elim conjE, assumption)+
qed

text \<open>
  C10 as stated fails for an id that is an array: the copy's id is another array, never
  \<^verbatim>\<open>===\<close> to the record's, so the import appends the copy and the mirror has two records
  with that id.
\<close>

theorem import_of_own_export_duplicates_array_id:
  "state_notes array_id_state = [0]
   \<and> state_tools array_id_state = []
   \<and> fst (handleImportFile example_platform example_page (exportData day2 array_id_state) array_id_state) = ImportSuccessful 1 0
   \<and> state_notes (snd (handleImportFile example_platform example_page (exportData day2 array_id_state) array_id_state)) = [0, 1]
   \<and> heap (snd (handleImportFile example_platform example_page (exportData day2 array_id_state) array_id_state)) 1 ''id'' =
       Some (JArr [JNum 1])
   \<and> heap (snd (handleImportFile example_platform example_page (exportData day2 array_id_state) array_id_state)) 0 ''id'' =
       Some (JArr [JNum 1])"
  by (simp add: array_id_state_def exportData_def handleImportFile_def run_defs eval_defs)

end
